theory Spec2Isabelle
  imports Main "HOL-Library.Word" "HOL-Library.Multiset"
begin

section \<open>Data model (types.ts)\<close>

text \<open>
  A JavaScript string is a sequence of UTF-16 code units, so a string is a list of
  16-bit words. The day labels of the application are not ASCII, and
  \<open>String.prototype.trim\<close> removes white space beyond ASCII, so the code units are kept.
\<close>

type_synonym js_string = "16 word list"

text \<open>\<open>PurchaseStatuses\<close>; the status \<open>'None'\<close> is \<open>StatusNone\<close> here.\<close>

datatype PurchaseStatus = StatusNone | Purchased | SoldOut | Absent | Postpone | Late

text \<open>
  \<open>Omit<ShoppingItem, 'id' | 'purchaseStatus'>\<close> is the record \<open>SheetItem\<close>, and
  \<open>ShoppingItem\<close> extends it by the two omitted fields (\<open>id\<close> is \<open>itemId\<close> here).
  A price is a JavaScript number that the code only ever builds from decimal digits or
  copies; it is a natural number here.
\<close>

record SheetItem =
  circle :: js_string
  eventDate :: js_string
  block :: js_string
  number :: js_string
  title :: js_string
  price :: nat
  remarks :: js_string

record ShoppingItem = SheetItem +
  itemId :: js_string
  purchaseStatus :: PurchaseStatus

datatype ViewMode = Edit | Execute

record DayModeState =
  day1Mode :: ViewMode
  day2Mode :: ViewMode

record ExecuteModeItems =
  day1 :: "js_string list"
  day2 :: "js_string list"

section \<open>Component state (App.tsx)\<close>

datatype ActiveTab = TabEventList | TabDay1 | TabDay2 | TabImport

datatype SortState =
  Manual | SortPostpone | SortLate | SortAbsent | SortSoldOut | SortPurchased

datatype BlockSortDirection = Asc | Desc

text \<open>The keys \<open>'day1' | 'day2'\<close> and the argument \<open>targetColumn\<close>.\<close>

datatype Day = Day1 | Day2

datatype Column = ExecuteColumn | CandidateColumn

record UpdateData =
  itemsToDelete :: "ShoppingItem list"
  itemsToUpdate :: "ShoppingItem list"
  itemsToAdd :: "SheetItem list"

text \<open>
  The \<open>useState\<close> cells of \<open>App\<close> that the handlers below read or write. A
  \<open>Record<string, T>\<close> is a partial map; the set \<open>selectedItemIds\<close> is only ever
  asked for membership by these handlers.
\<close>

record AppState =
  eventLists :: "js_string \<rightharpoonup> ShoppingItem list"
  executeModeItems :: "js_string \<rightharpoonup> ExecuteModeItems"
  dayModes :: "js_string \<rightharpoonup> DayModeState"
  activeEventName :: "js_string option"
  activeTab :: ActiveTab
  sortState :: SortState
  blockSortDirection :: "BlockSortDirection option"
  selectedItemIds :: "js_string set"
  updateData :: "UpdateData option"
  updateEventName :: "js_string option"
  showUpdateConfirmation :: bool

section \<open>Array primitives\<close>

text \<open>\<open>Array.prototype.findIndex\<close>: the first index whose element passes, \<open>None\<close> for -1.\<close>

fun findIndex :: "('a \<Rightarrow> bool) \<Rightarrow> 'a list \<Rightarrow> nat option" where
  "findIndex P [] = None"
| "findIndex P (x # xs) = (if P x then Some 0 else map_option Suc (findIndex P xs))"

text \<open>\<open>xs.splice(i, 1)\<close> leaves \<open>xs\<close> without its element at \<open>i\<close>.\<close>

definition spliceDelete :: "nat \<Rightarrow> 'a list \<Rightarrow> 'a list" where
  "spliceDelete i xs = take i xs @ drop (Suc i) xs"

text \<open>
  \<open>xs.splice(i, 0, ...ys)\<close> puts \<open>ys\<close> in front of index \<open>i\<close>; an index beyond the
  end is clamped to the length, which \<open>take\<close> and \<open>drop\<close> do as well.
\<close>

definition spliceInsert :: "nat \<Rightarrow> 'a list \<Rightarrow> 'a list \<Rightarrow> 'a list" where
  "spliceInsert i ys xs = take i xs @ ys @ drop i xs"

section \<open>Reordering (handleMoveItem)\<close>

definition currentDay :: "AppState \<Rightarrow> Day" where
  "currentDay s = (if activeTab s = TabDay1 then Day1 else Day2)"

definition emptyExecuteModeItems :: ExecuteModeItems where
  "emptyExecuteModeItems = \<lparr>day1 = [], day2 = []\<rparr>"

text \<open>\<open>eventItems[currentDay]\<close> and \<open>{ ...eventItems, [currentDay]: xs }\<close>.\<close>

definition dayItemsOf :: "ExecuteModeItems \<Rightarrow> Day \<Rightarrow> js_string list" where
  "dayItemsOf e d = (case d of Day1 \<Rightarrow> day1 e | Day2 \<Rightarrow> day2 e)"

definition withDayItems :: "ExecuteModeItems \<Rightarrow> Day \<Rightarrow> js_string list \<Rightarrow> ExecuteModeItems" where
  "withDayItems e d xs = (case d of Day1 \<Rightarrow> e\<lparr>day1 := xs\<rparr> | Day2 \<Rightarrow> e\<lparr>day2 := xs\<rparr>)"

text \<open>\<open>dayModes[activeEventName]?.[currentDay] || 'edit'\<close>.\<close>

definition modeOf :: "AppState \<Rightarrow> js_string \<Rightarrow> ViewMode" where
  "modeOf s ev =
     (case dayModes s ev of
        None \<Rightarrow> Edit
      | Some modes \<Rightarrow> (case currentDay s of Day1 \<Rightarrow> day1Mode modes | Day2 \<Rightarrow> day2Mode modes))"

text \<open>
  The updater given to \<open>setExecuteModeItems\<close> in edit mode: it reorders the ids of the
  current day's execute column. Returning \<open>prev\<close> is the source's \<open>return prev\<close>.
\<close>

definition reorderExecuteColumn ::
  "js_string \<Rightarrow> Day \<Rightarrow> js_string set \<Rightarrow> js_string \<Rightarrow> js_string \<Rightarrow>
   (js_string \<rightharpoonup> ExecuteModeItems) \<Rightarrow> (js_string \<rightharpoonup> ExecuteModeItems)" where
  "reorderExecuteColumn ev day sel dragId hoverId prev =
     (let eventItems = (case prev ev of None \<Rightarrow> emptyExecuteModeItems | Some e \<Rightarrow> e);
          dayItems = dayItemsOf eventItems day
      in if dragId \<in> sel then
           (let selectedBlock = filter (\<lambda>i. i \<in> sel) dayItems;
                listWithoutSelection = filter (\<lambda>i. i \<notin> sel) dayItems
            in case findIndex (\<lambda>i. i = hoverId) listWithoutSelection of
                 None \<Rightarrow> prev
               | Some targetIndex \<Rightarrow>
                   prev(ev \<mapsto> withDayItems eventItems day
                     (spliceInsert targetIndex selectedBlock listWithoutSelection)))
         else
           (case findIndex (\<lambda>i. i = dragId) dayItems of
              None \<Rightarrow> prev
            | Some dragIndex \<Rightarrow>
                (case findIndex (\<lambda>i. i = hoverId) dayItems of
                   None \<Rightarrow> prev
                 | Some hoverIndex \<Rightarrow>
                     (let draggedItem = dayItems ! dragIndex;
                          rest = spliceDelete dragIndex dayItems
                      in prev(ev \<mapsto> withDayItems eventItems day
                           (spliceInsert hoverIndex [draggedItem] rest))))))"

text \<open>
  The updater given to \<open>setEventLists\<close> in execute mode: it reorders the items of the
  event's collection. Both indices are looked up before the selection is asked.
\<close>

definition reorderEventList ::
  "js_string \<Rightarrow> js_string set \<Rightarrow> js_string \<Rightarrow> js_string \<Rightarrow>
   (js_string \<rightharpoonup> ShoppingItem list) \<Rightarrow> (js_string \<rightharpoonup> ShoppingItem list)" where
  "reorderEventList ev sel dragId hoverId prev =
     (let newItems = (case prev ev of None \<Rightarrow> [] | Some xs \<Rightarrow> xs)
      in case findIndex (\<lambda>item. itemId item = dragId) newItems of
           None \<Rightarrow> prev
         | Some dragIndex \<Rightarrow>
             (case findIndex (\<lambda>item. itemId item = hoverId) newItems of
                None \<Rightarrow> prev
              | Some hoverIndex \<Rightarrow>
                  if dragId \<in> sel then
                    (let selectedBlock = filter (\<lambda>item. itemId item \<in> sel) newItems;
                         listWithoutSelection = filter (\<lambda>item. itemId item \<notin> sel) newItems
                     in case findIndex (\<lambda>item. itemId item = hoverId) listWithoutSelection of
                          None \<Rightarrow> prev
                        | Some targetIndex \<Rightarrow>
                            prev(ev \<mapsto> spliceInsert targetIndex selectedBlock listWithoutSelection))
                  else
                    (let draggedItem = newItems ! dragIndex;
                         rest = spliceDelete dragIndex newItems
                     in prev(ev \<mapsto> spliceInsert hoverIndex [draggedItem] rest))))"

text \<open>
  \<open>if (!name) return\<close>: a name that is \<open>null\<close> or the empty string is falsy.
\<close>

definition truthy :: "js_string option \<Rightarrow> js_string option" where
  "truthy v = (case v of None \<Rightarrow> None | Some n \<Rightarrow> if n = [] then None else Some n)"

text \<open>
  \<open>handleMoveItem\<close>: nothing without an active event; otherwise the sort settings are
  reset and the mode of the current day picks the list that is reordered. In edit mode
  a move inside the candidate column changes nothing else.
\<close>

definition handleMoveItem ::
  "js_string \<Rightarrow> js_string \<Rightarrow> Column option \<Rightarrow> AppState \<Rightarrow> AppState" where
  "handleMoveItem dragId hoverId targetColumn s =
     (case truthy (activeEventName s) of
        None \<Rightarrow> s
      | Some ev \<Rightarrow>
          (let s1 = s\<lparr>sortState := Manual, blockSortDirection := None\<rparr>;
               mode = modeOf s ev
           in if mode = Edit \<and> targetColumn = Some ExecuteColumn then
                s1\<lparr>executeModeItems :=
                     reorderExecuteColumn ev (currentDay s) (selectedItemIds s) dragId hoverId
                       (executeModeItems s1)\<rparr>
              else if mode = Execute then
                s1\<lparr>eventLists :=
                     reorderEventList ev (selectedItemIds s) dragId hoverId (eventLists s1)\<rparr>
              else s1))"

section \<open>Editing an item (handleUpdateItem)\<close>

datatype js_error = TypeError

text \<open>
  \<open>prev[activeEventName].map(...)\<close> replaces the item with the id of \<open>updatedItem\<close>.
  The source reads \<open>prev[activeEventName]\<close> without a default, so an event that has
  no collection makes \<open>.map\<close> throw.
\<close>

definition handleUpdateItem :: "ShoppingItem \<Rightarrow> AppState \<Rightarrow> js_error + AppState" where
  "handleUpdateItem updatedItem s =
     (case truthy (activeEventName s) of
        None \<Rightarrow> Inr s
      | Some ev \<Rightarrow>
          (case eventLists s ev of
             None \<Rightarrow> Inl TypeError
           | Some xs \<Rightarrow>
               Inr (s\<lparr>eventLists := (eventLists s)(ev \<mapsto>
                 map (\<lambda>item. if itemId item = itemId updatedItem then updatedItem else item) xs)\<rparr>)))"

section \<open>The execute column (handleMoveToExecuteColumn) and the two projections\<close>

text \<open>
  A JavaScript \<open>Set\<close> iterates in insertion order, and \<open>add\<close> of an element it has
  changes nothing: \<open>new Set(xs)\<close> and \<open>Array.from\<close> are modelled on lists.
\<close>

definition setAdd :: "'a list \<Rightarrow> 'a \<Rightarrow> 'a list" where
  "setAdd s x = (if x \<in> set s then s else s @ [x])"

definition newSet :: "'a list \<Rightarrow> 'a list" where
  "newSet xs = fold (\<lambda>x s. setAdd s x) xs []"

definition handleMoveToExecuteColumn :: "js_string list \<Rightarrow> AppState \<Rightarrow> AppState" where
  "handleMoveToExecuteColumn itemIds s =
     (case truthy (activeEventName s) of
        None \<Rightarrow> s
      | Some ev \<Rightarrow>
          (let day = currentDay s;
               prev = executeModeItems s;
               eventItems = (case prev ev of None \<Rightarrow> emptyExecuteModeItems | Some e \<Rightarrow> e);
               currentDayItems =
                 fold (\<lambda>i acc. setAdd acc i) itemIds (newSet (dayItemsOf eventItems day))
           in s\<lparr>executeModeItems := prev(ev \<mapsto> withDayItems eventItems day currentDayItems),
                selectedItemIds := {}\<rparr>))"

text \<open>\<open>new Map(entries)\<close>: a later entry replaces an earlier one with the same key.\<close>

definition newMap :: "('k \<times> 'v) list \<Rightarrow> ('k \<rightharpoonup> 'v)" where
  "newMap entries = fold (\<lambda>(k, v) m. m(k \<mapsto> v)) entries Map.empty"

text \<open>\<open>String.prototype.includes\<close>: the argument occurs as a contiguous part.\<close>

fun includes_str :: "'a list \<Rightarrow> 'a list \<Rightarrow> bool" where
  "includes_str [] sub = (sub = [])"
| "includes_str (c # cs) sub = (take (length sub) (c # cs) = sub \<or> includes_str cs sub)"

text \<open>The labels of the two days: the digit 1 or 2, then the code units U+65E5 and U+76EE.\<close>

definition day1Label :: js_string where
  "day1Label = [0x31, 0x65E5, 0x76EE]"

definition day2Label :: js_string where
  "day2Label = [0x32, 0x65E5, 0x76EE]"

definition items :: "AppState \<Rightarrow> ShoppingItem list" where
  "items s =
     (case truthy (activeEventName s) of
        None \<Rightarrow> []
      | Some ev \<Rightarrow> (case eventLists s ev of None \<Rightarrow> [] | Some xs \<Rightarrow> xs))"

definition day1Items :: "AppState \<Rightarrow> ShoppingItem list" where
  "day1Items s = filter (\<lambda>item. includes_str (eventDate item) day1Label) (items s)"

definition day2Items :: "AppState \<Rightarrow> ShoppingItem list" where
  "day2Items s = filter (\<lambda>item. includes_str (eventDate item) day2Label) (items s)"

text \<open>\<open>executeModeItems[activeEventName]?.[currentDay] || []\<close>.\<close>

definition executeIdsOf :: "AppState \<Rightarrow> js_string \<Rightarrow> js_string list" where
  "executeIdsOf s ev =
     (case executeModeItems s ev of None \<Rightarrow> [] | Some e \<Rightarrow> dayItemsOf e (currentDay s))"

definition executeColumnItems :: "AppState \<Rightarrow> ShoppingItem list" where
  "executeColumnItems s =
     (case truthy (activeEventName s) of
        None \<Rightarrow> []
      | Some ev \<Rightarrow>
          (let executeIds = executeIdsOf s ev;
               itemsMap = newMap (map (\<lambda>item. (itemId item, item)) (items s))
           in List.map_filter itemsMap executeIds))"

definition candidateColumnItems :: "AppState \<Rightarrow> ShoppingItem list" where
  "candidateColumnItems s =
     (case truthy (activeEventName s) of
        None \<Rightarrow> []
      | Some ev \<Rightarrow>
          (let executeIds = executeIdsOf s ev;
               itemsForTab = (if activeTab s = TabDay1 then day1Items s else day2Items s)
           in filter (\<lambda>item. itemId item \<notin> set executeIds) itemsForTab))"

section \<open>Reading the fetched sheet (handleUpdateEvent, the parsing loop)\<close>

text \<open>
  \<open>String.prototype.trim\<close> removes the code units of ECMAScript's WhiteSpace and
  LineTerminator productions from both ends.
\<close>

definition isWhiteSpace :: "16 word \<Rightarrow> bool" where
  "isWhiteSpace c =
     (c = 0x09 \<or> c = 0x0A \<or> c = 0x0B \<or> c = 0x0C \<or> c = 0x0D \<or> c = 0x20 \<or> c = 0xA0 \<or>
      c = 0x1680 \<or> (0x2000 \<le> c \<and> c \<le> 0x200A) \<or> c = 0x2028 \<or> c = 0x2029 \<or>
      c = 0x202F \<or> c = 0x205F \<or> c = 0x3000 \<or> c = 0xFEFF)"

definition trim :: "js_string \<Rightarrow> js_string" where
  "trim s = rev (dropWhile isWhiteSpace (rev (dropWhile isWhiteSpace s)))"

text \<open>\<open>text.split('\n')\<close>: the pieces between the separators, empty pieces kept.\<close>

fun splitOn :: "'a \<Rightarrow> 'a list \<Rightarrow> 'a list list" where
  "splitOn sep [] = [[]]"
| "splitOn sep (c # cs) =
     (if c = sep then [] # splitOn sep cs
      else (case splitOn sep cs of [] \<Rightarrow> [[c]] | l # ls \<Rightarrow> (c # l) # ls))"

text \<open>
  The inner loop over the characters of one line, with the cells pushed so far, the
  current cell and the quote flag. A quote directly after a quote inside quotes is one
  literal quote (the loop's \<open>j++\<close> skips it); any other quote flips the flag; a comma
  outside quotes ends the cell. After the loop the current cell is pushed.
\<close>

fun splitCells :: "js_string \<Rightarrow> js_string list \<Rightarrow> js_string \<Rightarrow> bool \<Rightarrow> js_string list" where
  "splitCells [] cells currentCell insideQuotes = cells @ [currentCell]"
| "splitCells [c] cells currentCell insideQuotes =
     (if c = 0x22 then splitCells [] cells currentCell (\<not> insideQuotes)
      else if c = 0x2C \<and> \<not> insideQuotes then splitCells [] (cells @ [currentCell]) [] insideQuotes
      else splitCells [] cells (currentCell @ [c]) insideQuotes)"
| "splitCells (c # d # rest) cells currentCell insideQuotes =
     (if c = 0x22 then
        (if insideQuotes \<and> d = 0x22 then splitCells rest cells (currentCell @ [0x22]) insideQuotes
         else splitCells (d # rest) cells currentCell (\<not> insideQuotes))
      else if c = 0x2C \<and> \<not> insideQuotes then
        splitCells (d # rest) (cells @ [currentCell]) [] insideQuotes
      else splitCells (d # rest) cells (currentCell @ [c]) insideQuotes)"

text \<open>\<open>cells[i]?.trim() || ''\<close>: a cell that is missing reads as the empty string.\<close>

definition cellTrim :: "js_string list \<Rightarrow> nat \<Rightarrow> js_string" where
  "cellTrim cells i = (if i < length cells then trim (cells ! i) else [])"

text \<open>
  \<open>parseInt((cells[17] || '0').replace(/[^0-9]/g, ''), 10) || 0\<close>: the decimal value of
  the digits of the cell, and 0 when the cell is missing, empty or has no digit
  (\<open>parseInt('')\<close> is \<open>NaN\<close>, which is falsy). The value is exact here; a JavaScript
  number rounds a value above \<open>2^53\<close>.
\<close>

definition isDigit :: "16 word \<Rightarrow> bool" where
  "isDigit c = (0x30 \<le> c \<and> c \<le> 0x39)"

definition parseInt10 :: "js_string \<Rightarrow> nat option" where
  "parseInt10 ds =
     (if ds = [] then None else Some (fold (\<lambda>c n. 10 * n + unat (c - 0x30)) ds 0))"

definition cellPrice :: "js_string list \<Rightarrow> nat" where
  "cellPrice cells =
     (let raw = (if 17 < length cells \<and> cells ! 17 \<noteq> [] then cells ! 17 else [0x30])
      in case parseInt10 (filter isDigit raw) of None \<Rightarrow> 0 | Some n \<Rightarrow> n)"

text \<open>
  The body of the loop over the lines: a line whose cell 12, 13, 14 or 15 is empty
  after trimming is left out by \<open>continue\<close>; any other line pushes one item.
\<close>

definition parseLine :: "js_string \<Rightarrow> SheetItem list \<Rightarrow> SheetItem list" where
  "parseLine line sheetItems =
     (let cells = splitCells line [] [] False;
          circle' = cellTrim cells 12;
          eventDate' = cellTrim cells 13;
          block' = cellTrim cells 14;
          number' = cellTrim cells 15
      in if circle' = [] \<or> eventDate' = [] \<or> block' = [] \<or> number' = [] then sheetItems
         else
           (let title' = cellTrim cells 16;
                price' = cellPrice cells;
                remarks' = cellTrim cells 22
            in sheetItems @
                 [\<lparr>circle = circle', eventDate = eventDate', block = block', number = number',
                   title = title', price = price', remarks = remarks'\<rparr>]))"

text \<open>The lines of the response that are not blank; the loop starts at the second one.\<close>

definition sheetLines :: "js_string \<Rightarrow> js_string list" where
  "sheetLines text = filter (\<lambda>line. trim line \<noteq> []) (splitOn 0x0A text)"

definition handleUpdateEvent_parse :: "js_string \<Rightarrow> SheetItem list" where
  "handleUpdateEvent_parse text = fold parseLine (drop 1 (sheetLines text)) []"

section \<open>Item keys and sorted insertion (utils/itemComparison)\<close>

text \<open>
  Modelled from the spec: \<open>getItemKey\<close> and \<open>getItemKeyWithoutTitle\<close> of
  \<open>utils/itemComparison\<close>, which is not among the sources. The spec derives the full
  key from the tuple (circle, eventDate, block, number, title) and the loose key from the
  same tuple without the title. The key is the tuple itself here, so two keys are equal
  exactly when the tuples are.
\<close>

definition getItemKey ::
  "'a SheetItem_scheme \<Rightarrow> js_string \<times> js_string \<times> js_string \<times> js_string \<times> js_string" where
  "getItemKey item = (circle item, eventDate item, block item, number item, title item)"

definition getItemKeyWithoutTitle ::
  "'a SheetItem_scheme \<Rightarrow> js_string \<times> js_string \<times> js_string \<times> js_string" where
  "getItemKeyWithoutTitle item = (circle item, eventDate item, block item, number item)"

text \<open>
  Modelled from the spec: \<open>insertItemSorted\<close> of \<open>utils/itemComparison\<close>, which is
  not among the sources. The spec inserts the new item at the first position where it is
  not strictly greater than the item that follows, in a locale-aware comparison by
  (block, number). The comparison is the parameter \<open>gt\<close>: \<open>gt a b\<close> says that
  \<open>a\<close> is strictly greater than \<open>b\<close>.
\<close>

definition insertItemSorted ::
  "(ShoppingItem \<Rightarrow> ShoppingItem \<Rightarrow> bool) \<Rightarrow> ShoppingItem list \<Rightarrow> ShoppingItem \<Rightarrow>
   ShoppingItem list" where
  "insertItemSorted gt xs newItem =
     takeWhile (gt newItem) xs @ newItem # dropWhile (gt newItem) xs"

section \<open>Reconciliation (handleUpdateEvent, the diff)\<close>

text \<open>
  One turn of \<open>sheetItems.forEach\<close>, on the two arrays built so far: a current item
  with the full key gives an update when price or remarks differ, and nothing otherwise;
  failing that, a current item with the loose key gives an update that also takes the
  title; failing both, the row is an addition.
\<close>

definition diffSheetItem ::
  "(js_string \<times> js_string \<times> js_string \<times> js_string \<times> js_string \<rightharpoonup> ShoppingItem) \<Rightarrow>
   (js_string \<times> js_string \<times> js_string \<times> js_string \<rightharpoonup> ShoppingItem) \<Rightarrow>
   SheetItem \<Rightarrow> ShoppingItem list \<times> SheetItem list \<Rightarrow> ShoppingItem list \<times> SheetItem list" where
  "diffSheetItem currentItemsMapWithAll currentItemsMapWithoutTitle sheetItem acc =
     (case currentItemsMapWithAll (getItemKey sheetItem) of
        Some existingWithAll \<Rightarrow>
          if price existingWithAll \<noteq> price sheetItem \<or>
             remarks existingWithAll \<noteq> remarks sheetItem
          then (fst acc @ [existingWithAll\<lparr>price := price sheetItem,
                                            remarks := remarks sheetItem\<rparr>], snd acc)
          else acc
      | None \<Rightarrow>
          (case currentItemsMapWithoutTitle (getItemKeyWithoutTitle sheetItem) of
             Some existingWithoutTitle \<Rightarrow>
               (fst acc @ [existingWithoutTitle\<lparr>title := title sheetItem,
                                                 price := price sheetItem,
                                                 remarks := remarks sheetItem\<rparr>], snd acc)
           | None \<Rightarrow> (fst acc, snd acc @ [sheetItem])))"

definition handleUpdateEvent_diff :: "ShoppingItem list \<Rightarrow> SheetItem list \<Rightarrow> UpdateData" where
  "handleUpdateEvent_diff currentItems sheetItems =
     (let currentItemsMapWithAll = newMap (map (\<lambda>item. (getItemKey item, item)) currentItems);
          sheetItemsMapWithoutTitle =
            newMap (map (\<lambda>item. (getItemKeyWithoutTitle item, item)) sheetItems);
          currentItemsMapWithoutTitle =
            newMap (map (\<lambda>item. (getItemKeyWithoutTitle item, item)) currentItems);
          toDelete =
            fold (\<lambda>item acc.
                    if sheetItemsMapWithoutTitle (getItemKeyWithoutTitle item) = None
                    then acc @ [item] else acc)
              currentItems [];
          updAdd =
            fold (diffSheetItem currentItemsMapWithAll currentItemsMapWithoutTitle)
              sheetItems ([], [])
      in \<lparr>itemsToDelete = toDelete, itemsToUpdate = fst updAdd, itemsToAdd = snd updAdd\<rparr>)"

text \<open>
  \<open>handleUpdateEvent\<close> from the point where the response text has arrived: the rows
  are parsed, compared with the event's collection (\<open>eventLists[eventName] || []\<close>) and
  the change-set is stored for the confirmation dialog. Nothing else is written. The
  paths that fail before (no URL, a fetch error) store no change-set.
\<close>

definition handleUpdateEvent :: "js_string \<Rightarrow> js_string \<Rightarrow> AppState \<Rightarrow> AppState" where
  "handleUpdateEvent eventName text s =
     (let sheetItems = handleUpdateEvent_parse text;
          currentItems = (case eventLists s eventName of None \<Rightarrow> [] | Some xs \<Rightarrow> xs)
      in s\<lparr>updateData := Some (handleUpdateEvent_diff currentItems sheetItems),
           updateEventName := Some eventName,
           showUpdateConfirmation := True\<rparr>)"

section \<open>Confirming a change-set (handleConfirmUpdate)\<close>

definition newShoppingItem :: "js_string \<Rightarrow> SheetItem \<Rightarrow> ShoppingItem" where
  "newShoppingItem uuid itemData =
     \<lparr>circle = circle itemData, eventDate = eventDate itemData, block = block itemData,
      number = number itemData, title = title itemData, price = price itemData,
      remarks = remarks itemData, itemId = uuid, purchaseStatus = StatusNone\<rparr>"

text \<open>
  The body of the updater given to \<open>setEventLists\<close>, on the event's items: deletion
  by id, replacement by id, then one sorted insertion per addition. \<open>randomUUID k\<close> is
  the value of the \<open>k\<close>-th call of \<open>crypto.randomUUID()\<close>.
\<close>

definition confirmItems ::
  "(ShoppingItem \<Rightarrow> ShoppingItem \<Rightarrow> bool) \<Rightarrow> (nat \<Rightarrow> js_string) \<Rightarrow> UpdateData \<Rightarrow>
   ShoppingItem list \<Rightarrow> ShoppingItem list" where
  "confirmItems gt randomUUID ud newItems0 =
     (let deleteIds = set (map itemId (itemsToDelete ud));
          newItems1 = filter (\<lambda>item. itemId item \<notin> deleteIds) newItems0;
          updateMap = newMap (map (\<lambda>item. (itemId item, item)) (itemsToUpdate ud));
          newItems2 =
            map (\<lambda>item. case updateMap (itemId item) of Some u \<Rightarrow> u | None \<Rightarrow> item) newItems1;
          newItems3 =
            fold (\<lambda>(k, itemData) acc.
                    insertItemSorted gt acc (newShoppingItem (randomUUID k) itemData))
              (enumerate 0 (itemsToAdd ud)) newItems2
      in newItems3)"

text \<open>
  The updater itself: the items are read as \<open>prev[eventName] || []\<close> and the result
  is always stored under \<open>eventName\<close>.
\<close>

definition confirmEventLists ::
  "(ShoppingItem \<Rightarrow> ShoppingItem \<Rightarrow> bool) \<Rightarrow> (nat \<Rightarrow> js_string) \<Rightarrow> UpdateData \<Rightarrow> js_string \<Rightarrow>
   (js_string \<rightharpoonup> ShoppingItem list) \<Rightarrow> (js_string \<rightharpoonup> ShoppingItem list)" where
  "confirmEventLists gt randomUUID ud eventName prev =
     prev(eventName \<mapsto>
       confirmItems gt randomUUID ud (case prev eventName of None \<Rightarrow> [] | Some xs \<Rightarrow> xs))"

text \<open>
  The updater given to \<open>setExecuteModeItems\<close>: an event without execute columns is
  left as it is (\<open>if (!eventItems) return prev\<close>); otherwise the deleted ids leave both
  days' columns.
\<close>

definition confirmExecuteModeItems ::
  "UpdateData \<Rightarrow> js_string \<Rightarrow> (js_string \<rightharpoonup> ExecuteModeItems) \<Rightarrow>
   (js_string \<rightharpoonup> ExecuteModeItems)" where
  "confirmExecuteModeItems ud eventName prev =
     (case prev eventName of
        None \<Rightarrow> prev
      | Some eventItems \<Rightarrow>
          (let deleteIds = set (map itemId (itemsToDelete ud))
           in prev(eventName \<mapsto>
                \<lparr>day1 = filter (\<lambda>i. i \<notin> deleteIds) (day1 eventItems),
                 day2 = filter (\<lambda>i. i \<notin> deleteIds) (day2 eventItems)\<rparr>)))"

definition handleConfirmUpdate ::
  "(ShoppingItem \<Rightarrow> ShoppingItem \<Rightarrow> bool) \<Rightarrow> (nat \<Rightarrow> js_string) \<Rightarrow> AppState \<Rightarrow> AppState" where
  "handleConfirmUpdate gt randomUUID s =
     (case updateData s of
        None \<Rightarrow> s
      | Some ud \<Rightarrow>
          (case truthy (updateEventName s) of
             None \<Rightarrow> s
           | Some eventName \<Rightarrow>
               s\<lparr>eventLists := confirmEventLists gt randomUUID ud eventName (eventLists s),
                 executeModeItems := confirmExecuteModeItems ud eventName (executeModeItems s),
                 showUpdateConfirmation := False,
                 updateData := None,
                 updateEventName := None\<rparr>))"

section \<open>Deleting an event (handleDeleteEvent)\<close>

text \<open>
  The event leaves every map; when it was the active event, the event list is shown.
  (The metadata map is not part of this model.)
\<close>

definition handleDeleteEvent :: "js_string \<Rightarrow> AppState \<Rightarrow> AppState" where
  "handleDeleteEvent eventName s =
     (let s1 = s\<lparr>eventLists := (eventLists s)(eventName := None),
                  executeModeItems := (executeModeItems s)(eventName := None),
                  dayModes := (dayModes s)(eventName := None)\<rparr>
      in if activeEventName s = Some eventName
         then s1\<lparr>activeEventName := None, activeTab := TabEventList\<rparr>
         else s1)"

section \<open>Vocabulary of the claims\<close>

text \<open>The elements of a list in the order of their first occurrence, each once.\<close>

fun firstOccurrences :: "'a list \<Rightarrow> 'a list" where
  "firstOccurrences [] = []"
| "firstOccurrences (x # xs) = x # filter (\<lambda>y. y \<noteq> x) (firstOccurrences xs)"

text \<open>
  The spec's reading of a fetched row: a field is blank when the row has no cell at its
  index or the cell is empty after trimming; a row with a blank field among the indices
  12 to 15 gives no candidate, and any other row gives the candidate with circle, event
  date, block and number from the cells 12 to 15, the title from cell 16, the price
  from cell 17 and the remarks from cell 22.
\<close>

definition fieldBlank :: "js_string list \<Rightarrow> nat \<Rightarrow> bool" where
  "fieldBlank cells i = (length cells \<le> i \<or> trim (cells ! i) = [])"

definition rowCandidate :: "js_string list \<Rightarrow> SheetItem option" where
  "rowCandidate cells =
     (if fieldBlank cells 12 \<or> fieldBlank cells 13 \<or> fieldBlank cells 14 \<or> fieldBlank cells 15
      then None
      else Some \<lparr>circle = trim (cells ! 12), eventDate = trim (cells ! 13),
                  block = trim (cells ! 14), number = trim (cells ! 15),
                  title = cellTrim cells 16, price = cellPrice cells,
                  remarks = cellTrim cells 22\<rparr>)"

text \<open>
  What one fetched row adds to \<open>itemsToUpdate\<close> and whether it is added to
  \<open>itemsToAdd\<close>, as functions of the current items and the row: the two halves of
  \<open>diffSheetItem\<close>.
\<close>

definition updatesFor :: "ShoppingItem list \<Rightarrow> SheetItem \<Rightarrow> ShoppingItem list" where
  "updatesFor cur r =
     (case newMap (map (\<lambda>item. (getItemKey item, item)) cur) (getItemKey r) of
        Some e \<Rightarrow>
          if price e \<noteq> price r \<or> remarks e \<noteq> remarks r
          then [e\<lparr>price := price r, remarks := remarks r\<rparr>] else []
      | None \<Rightarrow>
          (case newMap (map (\<lambda>item. (getItemKeyWithoutTitle item, item)) cur)
                  (getItemKeyWithoutTitle r) of
             Some e \<Rightarrow> [e\<lparr>title := title r, price := price r, remarks := remarks r\<rparr>]
           | None \<Rightarrow> []))"

definition isAddition :: "ShoppingItem list \<Rightarrow> SheetItem \<Rightarrow> bool" where
  "isAddition cur r \<longleftrightarrow>
     newMap (map (\<lambda>item. (getItemKey item, item)) cur) (getItemKey r) = None \<and>
     newMap (map (\<lambda>item. (getItemKeyWithoutTitle item, item)) cur) (getItemKeyWithoutTitle r) = None"




section \<open>Sample data\<close>

text \<open>A string of ASCII characters as code units.\<close>

definition ascii :: "string \<Rightarrow> js_string" where
  "ascii s = map (\<lambda>c. of_nat (of_char c)) s"

text \<open>An item of day 1 whose id and number are the given name.\<close>

definition sampleItem :: "string \<Rightarrow> ShoppingItem" where
  "sampleItem n =
     \<lparr>circle = ascii ''X'', eventDate = day1Label, block = ascii ''A'', number = ascii n,
      title = ascii ''T'', price = 500, remarks = [], itemId = ascii n,
      purchaseStatus = StatusNone\<rparr>"

text \<open>
  One event \<open>E\<close> with the items \<open>a\<close>, \<open>b\<close>, \<open>c\<close>, all three in the execute column
  of day 1, shown on the tab of day 1 in the given mode with the given selection.
\<close>

definition sampleState :: "ViewMode \<Rightarrow> js_string set \<Rightarrow> AppState" where
  "sampleState mode sel =
     \<lparr>eventLists = [ascii ''E'' \<mapsto> [sampleItem ''a'', sampleItem ''b'', sampleItem ''c'']],
      executeModeItems =
        [ascii ''E'' \<mapsto> \<lparr>day1 = [ascii ''a'', ascii ''b'', ascii ''c''], day2 = []\<rparr>],
      dayModes = [ascii ''E'' \<mapsto> \<lparr>day1Mode = mode, day2Mode = Edit\<rparr>],
      activeEventName = Some (ascii ''E''),
      activeTab = TabDay1,
      sortState = Manual,
      blockSortDirection = None,
      selectedItemIds = sel,
      updateData = None,
      updateEventName = None,
      showUpdateConfirmation = False\<rparr>"

text \<open>\<open>a\<close> stands directly in front of \<open>b\<close> somewhere in the list.\<close>

fun directlyPrecedes :: "'a \<Rightarrow> 'a \<Rightarrow> 'a list \<Rightarrow> bool" where
  "directlyPrecedes a b (x # y # rest) = ((x = a \<and> y = b) \<or> directlyPrecedes a b (y # rest))"
| "directlyPrecedes a b _ = False"

text \<open>The same item on day 2.\<close>

definition sampleItemDay2 :: "string \<Rightarrow> ShoppingItem" where
  "sampleItemDay2 n = (sampleItem n)\<lparr>eventDate := day2Label\<rparr>"

text \<open>
  Event \<open>E\<close> with the item \<open>a\<close> of day 1 and the item \<open>z\<close> of day 2; the execute
  column of day 1 holds \<open>z\<close>, and the tab of day 1 is shown.
\<close>

definition mixedState:: AppState where
  "mixedState =
     (sampleState Edit {})
       \<lparr>eventLists := [ascii ''E'' \<mapsto> [sampleItem ''a'', sampleItemDay2 ''z'']],
        executeModeItems := [ascii ''E'' \<mapsto> \<lparr>day1 = [ascii ''z''], day2 = []\<rparr>]\<rparr>"

text \<open>
  A response of four lines: a header, a complete row with a quoted price and padded
  title, an empty line, and a row whose number is a single space.
\<close>

definition sampleText :: js_string where
  "sampleText =
     ascii ''h'' @ [0x0A] @
     ascii '',,,,,,,,,,,,C,d1,A,01, Title ,'' @ [0x22] @ ascii ''1,200'' @ [0x22] @
     ascii '',,,,,memo'' @ [0x0A, 0x0A] @
     ascii '',,,,,,,,,,,,C2,d1,A, ,T2,5''"

text \<open>
  The item and the fetched row of the spec's scenario: the same circle, day, block and
  number, and a new title, price and remark in the row.
\<close>

definition oldItem :: ShoppingItem where
  "oldItem =
     \<lparr>circle = ascii ''A'', eventDate = ascii ''1'', block = ascii ''E1'', number = ascii ''01'',
      title = ascii ''Old'', price = 500, remarks = [], itemId = ascii ''id1'',
      purchaseStatus = Purchased\<rparr>"

definition newRow :: SheetItem where
  "newRow =
     \<lparr>circle = ascii ''A'', eventDate = ascii ''1'', block = ascii ''E1'', number = ascii ''01'',
      title = ascii ''New'', price = 600, remarks = ascii ''memo''\<rparr>"

text \<open>A second item at the same place as the item of the scenario, with another title.\<close>

definition siblingItem :: ShoppingItem where
  "siblingItem = oldItem\<lparr>title := ascii ''Other'', itemId := ascii ''id2''\<rparr>"

text \<open>A comparison and a source of ids for the sorted insertion.\<close>

definition neverGreater :: "ShoppingItem \<Rightarrow> ShoppingItem \<Rightarrow> bool" where
  "neverGreater a b = False"

definition sampleUUID :: "nat \<Rightarrow> js_string" where
  "sampleUUID k = ascii ''uuid'' @ [of_nat k]"

text \<open>Event \<open>E\<close> holding the one item of the scenario, in the execute column of day 1.\<close>

definition oldState :: AppState where
  "oldState =
     (sampleState Edit {})
       \<lparr>eventLists := [ascii ''E'' \<mapsto> [oldItem]],
        executeModeItems := [ascii ''E'' \<mapsto> \<lparr>day1 = [ascii ''id1''], day2 = []\<rparr>]\<rparr>"


definition addText :: js_string where
  "addText =
     ascii ''h'' @ [0x0A] @
     ascii '',,,,,,,,,,,,A,1,E1,01,Old,600'' @ [0x0A] @
     ascii '',,,,,,,,,,,,A,1,E2,07,Other,300''"

text \<open>A parsed row of circle \<open>A\<close> on day \<open>1\<close> without remarks.\<close>

definition sheetRow :: "string \<Rightarrow> string \<Rightarrow> string \<Rightarrow> nat \<Rightarrow> SheetItem" where
  "sheetRow b n t p =
     \<lparr>circle = ascii ''A'', eventDate = ascii ''1'', block = ascii b, number = ascii n,
      title = ascii t, price = p, remarks = []\<rparr>"

text \<open>
  Two responses of a header and one row of the sheet each. In the first the title cell
  of the row holds a line break, so the cell is quoted and the row takes two lines of
  the response; in the second the first cell of the row does.
\<close>

definition multilineRow :: js_string where
  "multilineRow =
     ascii '',,,,,,,,,,,,C,d1,A,01,'' @ [0x22] @ ascii ''Ti'' @ [0x0A] @ ascii ''tle'' @ [0x22] @
     ascii '',500,,,,,memo''"

definition multilineText :: js_string where
  "multilineText = ascii ''h'' @ [0x0A] @ multilineRow"

definition noteRow :: js_string where
  "noteRow =
     [0x22] @ ascii ''x'' @ [0x0A] @ ascii ''y'' @ [0x22] @ ascii '',,,,,,,,,,,,C,d1,A,01,T,500''"

definition noteText :: js_string where
  "noteText = ascii ''h'' @ [0x0A] @ noteRow"

section \<open>Facts about the array primitives\<close>

lemma findIndex_None_iff: "findIndex P xs = None \<longleftrightarrow> (\<forall>x \<in> set xs. \<not> P x)"
  by (induction xs) auto

lemma findIndex_Some_split:
  "findIndex P xs = Some i \<Longrightarrow>
     \<exists>pre x post. xs = pre @ x # post \<and> length pre = i \<and> P x \<and> (\<forall>y \<in> set pre. \<not> P y)"
proof (induction xs arbitrary: i)
  case Nil
  then show ?case by simp
next
  case (Cons a xs)
  show ?case
  proof (cases "P a")
    case True
    with Cons.prems have "i = 0" by simp
    with True show ?thesis by (intro exI [of _ "[]"]) auto
  next
    case False
    with Cons.prems obtain j where j: "findIndex P xs = Some j" "i = Suc j" by auto
    from Cons.IH [OF j(1)] obtain pre x post where
      "xs = pre @ x # post" "length pre = j" "P x" "\<forall>y \<in> set pre. \<not> P y" by blast
    with False j(2) show ?thesis
      by (intro exI [of _ "a # pre"] exI [of _ x] exI [of _ post]) auto
  qed
qed

lemma findIndex_split_Some:
  "P x \<Longrightarrow> \<forall>y \<in> set pre. \<not> P y \<Longrightarrow> findIndex P (pre @ x # post) = Some (length pre)"
  by (induction pre) auto

lemma findIndex_less: "findIndex P xs = Some i \<Longrightarrow> i < length xs"
  by (auto dest: findIndex_Some_split)

lemma mset_spliceInsert: "mset (spliceInsert i ys xs) = mset xs + mset ys"
proof -
  have "mset (take i xs) + mset (drop i xs) = mset xs"
    by (metis append_take_drop_id mset_append)
  then show ?thesis by (simp add: spliceInsert_def ac_simps)
qed

lemma mset_spliceDelete:
  "i < length xs \<Longrightarrow> mset (spliceDelete i xs) + {#xs ! i#} = mset xs"
proof -
  assume "i < length xs"
  then have "xs = take i xs @ xs ! i # drop (Suc i) xs"
    by (rule id_take_nth_drop)
  then have "mset xs = mset (take i xs) + {#xs ! i#} + mset (drop (Suc i) xs)"
    by (metis mset.simps(2) mset_append add_mset_add_single union_mset_add_mset_right
        add.commute add.assoc)
  then show ?thesis by (simp add: spliceDelete_def)
qed

lemma mset_move_single:
  "i < length xs \<Longrightarrow> mset (spliceInsert j [xs ! i] (spliceDelete i xs)) = mset xs"
  using mset_spliceDelete [of i xs] by (simp add: mset_spliceInsert)

lemma mset_move_block:
  "mset (spliceInsert j (filter P xs) (filter (\<lambda>x. \<not> P x) xs)) = mset xs"
  by (simp add: mset_spliceInsert add.commute)

section \<open>Reordering keeps every id\<close>

lemma dayItemsOf_withDayItems:
  "dayItemsOf (withDayItems e d xs) d' = (if d' = d then xs else dayItemsOf e d')"
  by (cases d; cases d') (simp_all add: dayItemsOf_def withDayItems_def)

lemma dayItemsOf_empty: "dayItemsOf emptyExecuteModeItems d = []"
  by (cases d) (simp_all add: dayItemsOf_def emptyExecuteModeItems_def)

lemma mset_reorderExecuteColumn:
  "map_option (\<lambda>e. mset (dayItemsOf e d)) (reorderExecuteColumn ev day sel dragId hoverId prev ev') =
   map_option (\<lambda>e. mset (dayItemsOf e d)) (prev ev')"
  by (auto simp: reorderExecuteColumn_def Let_def dayItemsOf_withDayItems mset_move_block
      mset_move_single dayItemsOf_empty
      split: option.splits dest!: findIndex_less)

lemma mset_reorderEventList:
  "map_option mset (reorderEventList ev sel dragId hoverId prev ev') = map_option mset (prev ev')"
  by (auto simp: reorderEventList_def Let_def mset_move_block mset_move_single
      split: option.splits dest!: findIndex_less)

lemma mset_ids_reorderEventList:
  "map_option (\<lambda>xs. mset (map itemId xs)) (reorderEventList ev sel dragId hoverId prev ev') =
   map_option (\<lambda>xs. mset (map itemId xs)) (prev ev')"
proof -
  have "map_option (image_mset itemId)
          (map_option mset (reorderEventList ev sel dragId hoverId prev ev')) =
        map_option (image_mset itemId) (map_option mset (prev ev'))"
    by (simp only: mset_reorderEventList)
  then show ?thesis by (simp add: option.map_comp comp_def)
qed

text \<open>
  C6. \<open>handleMoveItem\<close> never changes which ids a list holds, nor how often: for
  every event, the multiset of the ids of its collection (the list reordered in execute
  mode) and the multiset of the ids of each day's execute column (the list reordered in
  edit mode) are the same before and after, whatever the two ids, the target column and
  the selection are.
\<close>

theorem handleMoveItem_preserves_ids:
  "map_option (\<lambda>xs. mset (map itemId xs))
     (eventLists (handleMoveItem dragId hoverId col s) ev) =
   map_option (\<lambda>xs. mset (map itemId xs)) (eventLists s ev) \<and>
   map_option (\<lambda>e. mset (dayItemsOf e d))
     (executeModeItems (handleMoveItem dragId hoverId col s) ev) =
   map_option (\<lambda>e. mset (dayItemsOf e d)) (executeModeItems s ev)"
  using mset_ids_reorderEventList mset_reorderExecuteColumn
  by (simp add: handleMoveItem_def Let_def split: option.splits)

section \<open>A single move and a block move\<close>

lemma spliceDelete_at: "spliceDelete (length pre) (pre @ x # post) = pre @ post"
  by (simp add: spliceDelete_def)

lemma spliceInsert_at: "spliceInsert (length pre) ys (pre @ post) = pre @ ys @ post"
  by (simp add: spliceInsert_def)

lemma move_single_up:
  assumes "f h = hoverId" "f d = dragId" "hoverId \<noteq> dragId"
    and "hoverId \<notin> f ` set A" "dragId \<notin> f ` set A" "dragId \<notin> f ` set B"
    and xs_def: "xs = A @ h # B @ d # C"
  shows "findIndex (\<lambda>x. f x = dragId) xs = Some (length (A @ h # B)) \<and>
         findIndex (\<lambda>x. f x = hoverId) xs = Some (length A) \<and>
         spliceInsert (length A) [xs ! length (A @ h # B)] (spliceDelete (length (A @ h # B)) xs) =
           A @ d # h # B @ C"
proof -
  have xs: "xs = (A @ h # B) @ d # C" by (simp add: xs_def)
  have 1: "findIndex (\<lambda>x. f x = dragId) xs = Some (length (A @ h # B))"
    unfolding xs using assms(1-6) by (intro findIndex_split_Some) (auto simp: image_iff)
  have 2: "findIndex (\<lambda>x. f x = hoverId) xs = Some (length A)"
    unfolding xs_def using assms(1-6) by (intro findIndex_split_Some) (auto simp: image_iff)
  have 3: "xs ! length (A @ h # B) = d"
    unfolding xs by (simp only: nth_append_length)
  have 4: "spliceDelete (length (A @ h # B)) xs = A @ h # B @ C"
    unfolding xs by (simp only: spliceDelete_at) simp
  have 5: "spliceInsert (length A) [d] (A @ h # B @ C) = A @ d # h # B @ C"
    by (simp only: spliceInsert_at) simp
  from 1 2 3 4 5 show ?thesis by simp
qed

lemma move_single_down:
  assumes "f h = hoverId" "f d = dragId" "hoverId \<noteq> dragId"
    and "hoverId \<notin> f ` set A" "dragId \<notin> f ` set A" "hoverId \<notin> f ` set B"
    and xs_def: "xs = A @ d # B @ h # C"
  shows "findIndex (\<lambda>x. f x = dragId) xs = Some (length A) \<and>
         findIndex (\<lambda>x. f x = hoverId) xs = Some (length (A @ d # B)) \<and>
         spliceInsert (length (A @ d # B)) [xs ! length A] (spliceDelete (length A) xs) =
           A @ B @ h # d # C"
proof -
  have xs: "xs = (A @ d # B) @ h # C" by (simp add: xs_def)
  have 1: "findIndex (\<lambda>x. f x = dragId) xs = Some (length A)"
    unfolding xs_def using assms(1-6) by (intro findIndex_split_Some) (auto simp: image_iff)
  have 2: "findIndex (\<lambda>x. f x = hoverId) xs = Some (length (A @ d # B))"
    unfolding xs using assms(1-6) by (intro findIndex_split_Some) (auto simp: image_iff)
  have 3: "xs ! length A = d"
    unfolding xs_def by (simp only: nth_append_length)
  have 4: "spliceDelete (length A) xs = A @ B @ h # C"
    unfolding xs_def by (simp only: spliceDelete_at)
  have "length (A @ d # B) = length ((A @ B) @ [h])" by simp
  then have 5: "spliceInsert (length (A @ d # B)) [d] (A @ B @ h # C) = A @ B @ h # d # C"
    using spliceInsert_at [of "(A @ B) @ [h]" "[d]" C] by simp
  from 1 2 3 4 5 show ?thesis by simp
qed


lemma handleMoveItem_execute:
  assumes "activeEventName s = Some ev" "ev \<noteq> []" "modeOf s ev = Execute"
  shows "eventLists (handleMoveItem dragId hoverId col s) =
           reorderEventList ev (selectedItemIds s) dragId hoverId (eventLists s)"
    and "executeModeItems (handleMoveItem dragId hoverId col s) = executeModeItems s"
  using assms by (simp_all add: handleMoveItem_def truthy_def Let_def)

lemma handleMoveItem_edit:
  assumes "activeEventName s = Some ev" "ev \<noteq> []" "modeOf s ev = Edit"
    and "col = Some ExecuteColumn"
  shows "executeModeItems (handleMoveItem dragId hoverId col s) =
           reorderExecuteColumn ev (currentDay s) (selectedItemIds s) dragId hoverId
             (executeModeItems s)"
    and "eventLists (handleMoveItem dragId hoverId col s) = eventLists s"
  using assms by (simp_all add: handleMoveItem_def truthy_def Let_def)

lemma reorderEventList_single:
  assumes "dragId \<notin> sel" "prev ev = Some xs"
    and "findIndex (\<lambda>x. itemId x = dragId) xs = Some i"
    and "findIndex (\<lambda>x. itemId x = hoverId) xs = Some j"
  shows "reorderEventList ev sel dragId hoverId prev =
           prev(ev \<mapsto> spliceInsert j [xs ! i] (spliceDelete i xs))"
  using assms by (simp add: reorderEventList_def Let_def)

lemma reorderExecuteColumn_single:
  assumes "dragId \<notin> sel" "prev ev = Some e"
    and "findIndex (\<lambda>x. x = dragId) (dayItemsOf e day) = Some i"
    and "findIndex (\<lambda>x. x = hoverId) (dayItemsOf e day) = Some j"
  shows "reorderExecuteColumn ev day sel dragId hoverId prev =
           prev(ev \<mapsto> withDayItems e day
             (spliceInsert j [dayItemsOf e day ! i] (spliceDelete i (dayItemsOf e day))))"
  using assms by (simp add: reorderExecuteColumn_def Let_def)

lemma move_block:
  assumes "filter (\<lambda>x. f x \<notin> sel) xs = P @ t # Q" "f t = hoverId" "hoverId \<notin> f ` set P"
  shows "findIndex (\<lambda>x. f x = hoverId) (filter (\<lambda>x. f x \<notin> sel) xs) = Some (length P) \<and>
         spliceInsert (length P) ys (filter (\<lambda>x. f x \<notin> sel) xs) = P @ ys @ t # Q"
proof -
  have "findIndex (\<lambda>x. f x = hoverId) (P @ t # Q) = Some (length P)"
    using assms(2,3) by (intro findIndex_split_Some) (auto simp: image_iff)
  moreover have "spliceInsert (length P) ys (P @ t # Q) = P @ ys @ t # Q"
    by (simp only: spliceInsert_at)
  ultimately show ?thesis by (simp only: assms(1))
qed

lemma findIndex_Some_iff_ex: "(\<exists>i. findIndex P xs = Some i) \<longleftrightarrow> (\<exists>x \<in> set xs. P x)"
  using findIndex_None_iff [of P xs] by (cases "findIndex P xs") auto

lemma reorderEventList_block:
  assumes "dragId \<in> sel" "prev ev = Some xs" "dragId \<in> itemId ` set xs"
    and "filter (\<lambda>x. itemId x \<notin> sel) xs = P @ t # Q" "itemId t = hoverId"
    and "hoverId \<notin> itemId ` set P"
  shows "reorderEventList ev sel dragId hoverId prev =
           prev(ev \<mapsto> P @ filter (\<lambda>x. itemId x \<in> sel) xs @ t # Q)"
proof -
  from assms(3) obtain i where i: "findIndex (\<lambda>x. itemId x = dragId) xs = Some i"
    using findIndex_Some_iff_ex [of "\<lambda>x. itemId x = dragId" xs] by auto
  have "t \<in> set (filter (\<lambda>x. itemId x \<notin> sel) xs)" by (simp only: assms(4)) simp
  then have "t \<in> set xs" by simp
  with assms(5) obtain j where j: "findIndex (\<lambda>x. itemId x = hoverId) xs = Some j"
    using findIndex_Some_iff_ex [of "\<lambda>x. itemId x = hoverId" xs] by auto
  from move_block [of itemId sel xs P t Q hoverId, OF assms(4-6)] i j assms(1,2)
  show ?thesis by (simp add: reorderEventList_def Let_def)
qed


lemma reorderEventList_stale:
  assumes "dragId \<notin> itemId ` set (case prev ev of None \<Rightarrow> [] | Some xs \<Rightarrow> xs) \<or>
           hoverId \<notin> itemId ` set (case prev ev of None \<Rightarrow> [] | Some xs \<Rightarrow> xs)"
  shows "reorderEventList ev sel dragId hoverId prev = prev"
proof -
  have "findIndex (\<lambda>x. itemId x = dragId) (case prev ev of None \<Rightarrow> [] | Some xs \<Rightarrow> xs) = None \<or>
        findIndex (\<lambda>x. itemId x = hoverId) (case prev ev of None \<Rightarrow> [] | Some xs \<Rightarrow> xs) = None"
    using assms by (auto simp: findIndex_None_iff image_iff)
  then show ?thesis
    by (auto simp add: reorderEventList_def Let_def split: option.splits)
qed

lemma reorderExecuteColumn_block:
  assumes "dragId \<in> sel" "prev ev = Some e"
    and "filter (\<lambda>x. x \<notin> sel) (dayItemsOf e day) = P @ hoverId # Q" "hoverId \<notin> set P"
  shows "reorderExecuteColumn ev day sel dragId hoverId prev =
           prev(ev \<mapsto> withDayItems e day
             (P @ filter (\<lambda>x. x \<in> sel) (dayItemsOf e day) @ hoverId # Q))"
proof -
  have "hoverId \<notin> (\<lambda>x. x) ` set P" using assms(4) by simp
  from move_block [of "\<lambda>x. x" sel "dayItemsOf e day" P hoverId Q hoverId, OF assms(3) refl this]
    assms(1,2)
  show ?thesis by (simp add: reorderExecuteColumn_def Let_def)
qed



lemma filter_lone:
  assumes "distinct (map f (L @ d # R))"
  shows "filter (\<lambda>x. f x \<notin> {f d}) (L @ d # R) = L @ R"
    and "filter (\<lambda>x. f x \<in> {f d}) (L @ d # R) = [d]"
proof -
  from assms have "\<forall>x \<in> set L. f x \<noteq> f d" "\<forall>x \<in> set R. f x \<noteq> f d"
    by (auto simp: image_iff)
  then have "filter (\<lambda>x. f x \<noteq> f d) L = L" "filter (\<lambda>x. f x \<noteq> f d) R = R"
    "filter (\<lambda>x. f x = f d) L = []" "filter (\<lambda>x. f x = f d) R = []"
    by (simp_all add: filter_id_conv filter_empty_conv)
  then show "filter (\<lambda>x. f x \<notin> {f d}) (L @ d # R) = L @ R"
    and "filter (\<lambda>x. f x \<in> {f d}) (L @ d # R) = [d]"
    by simp_all
qed


lemmas sample_defs = sampleState_def sampleItem_def ascii_def day1Label_def

lemmas move_defs = handleMoveItem_def truthy_def modeOf_def currentDay_def
  reorderEventList_def reorderExecuteColumn_def spliceDelete_def spliceInsert_def
  dayItemsOf_def withDayItems_def emptyExecuteModeItems_def

text \<open>
  C3, as the claim states it, fails: in the sample collection \<open>a, b, c\<close> in execute
  mode with nothing selected, dragging \<open>a\<close> onto \<open>c\<close> gives \<open>b, c, a\<close>, where
  \<open>a\<close> follows \<open>c\<close> and does not precede it.
\<close>

theorem handleMoveItem_single_counterexample:
  "eventLists (handleMoveItem (ascii ''a'') (ascii ''c'') None (sampleState Execute {})) (ascii ''E'') =
     Some [sampleItem ''b'', sampleItem ''c'', sampleItem ''a''] \<and>
   \<not> directlyPrecedes (ascii ''a'') (ascii ''c'')
       (map itemId [sampleItem ''b'', sampleItem ''c'', sampleItem ''a''])"
  by (simp add: sample_defs move_defs)

text \<open>
  C3, amended. Let the ids of the reordered list be unique and let the dragged id and
  the target id be different ids of it. When the selection does not hold the dragged
  id, \<open>handleMoveItem\<close> takes the dragged element out and puts it back at the index
  the target had before: a dragged element that came after the target ends directly in
  front of it, and one that came before the target ends directly behind it. When the
  selection is the dragged id alone, the dragged element ends directly in front of the
  target in both directions. This holds for the collection in execute mode and for the
  execute column of the current day in edit mode.
\<close>

theorem handleMoveItem_single_lands_at_target_index:
  assumes ev: "activeEventName s = Some ev" "ev \<noteq> []"
    and ne: "hoverId \<noteq> dragId"
    and h: "itemId h = hoverId" and d: "itemId d = dragId"
  shows
    "(modeOf s ev = Execute \<and> dragId \<notin> selectedItemIds s \<and>
        eventLists s ev = Some (A @ h # B @ d # C) \<and>
        distinct (map itemId (A @ h # B @ d # C)) \<longrightarrow>
      eventLists (handleMoveItem dragId hoverId col s) ev = Some (A @ d # h # B @ C)) \<and>
     (modeOf s ev = Execute \<and> dragId \<notin> selectedItemIds s \<and>
        eventLists s ev = Some (A @ d # B @ h # C) \<and>
        distinct (map itemId (A @ d # B @ h # C)) \<longrightarrow>
      eventLists (handleMoveItem dragId hoverId col s) ev = Some (A @ B @ h # d # C)) \<and>
     (modeOf s ev = Edit \<and> col = Some ExecuteColumn \<and> dragId \<notin> selectedItemIds s \<and>
        executeModeItems s ev = Some e \<and>
        dayItemsOf e (currentDay s) = I @ hoverId # J @ dragId # K \<and>
        distinct (I @ hoverId # J @ dragId # K) \<longrightarrow>
      executeModeItems (handleMoveItem dragId hoverId col s) ev =
        Some (withDayItems e (currentDay s) (I @ dragId # hoverId # J @ K))) \<and>
     (modeOf s ev = Edit \<and> col = Some ExecuteColumn \<and> dragId \<notin> selectedItemIds s \<and>
        executeModeItems s ev = Some e \<and>
        dayItemsOf e (currentDay s) = I @ dragId # J @ hoverId # K \<and>
        distinct (I @ dragId # J @ hoverId # K) \<longrightarrow>
      executeModeItems (handleMoveItem dragId hoverId col s) ev =
        Some (withDayItems e (currentDay s) (I @ J @ hoverId # dragId # K))) \<and>
     (modeOf s ev = Execute \<and> selectedItemIds s = {dragId} \<and>
        eventLists s ev = Some (A @ h # B @ d # C) \<and>
        distinct (map itemId (A @ h # B @ d # C)) \<longrightarrow>
      eventLists (handleMoveItem dragId hoverId col s) ev = Some (A @ d # h # B @ C)) \<and>
     (modeOf s ev = Execute \<and> selectedItemIds s = {dragId} \<and>
        eventLists s ev = Some (A @ d # B @ h # C) \<and>
        distinct (map itemId (A @ d # B @ h # C)) \<longrightarrow>
      eventLists (handleMoveItem dragId hoverId col s) ev = Some (A @ B @ d # h # C)) \<and>
     (modeOf s ev = Edit \<and> col = Some ExecuteColumn \<and> selectedItemIds s = {dragId} \<and>
        executeModeItems s ev = Some e \<and>
        dayItemsOf e (currentDay s) = I @ hoverId # J @ dragId # K \<and>
        distinct (I @ hoverId # J @ dragId # K) \<longrightarrow>
      executeModeItems (handleMoveItem dragId hoverId col s) ev =
        Some (withDayItems e (currentDay s) (I @ dragId # hoverId # J @ K))) \<and>
     (modeOf s ev = Edit \<and> col = Some ExecuteColumn \<and> selectedItemIds s = {dragId} \<and>
        executeModeItems s ev = Some e \<and>
        dayItemsOf e (currentDay s) = I @ dragId # J @ hoverId # K \<and>
        distinct (I @ dragId # J @ hoverId # K) \<longrightarrow>
      executeModeItems (handleMoveItem dragId hoverId col s) ev =
        Some (withDayItems e (currentDay s) (I @ J @ dragId # hoverId # K)))"
proof (intro conjI impI; elim conjE)
  assume m: "modeOf s ev = Execute" and nsel: "dragId \<notin> selectedItemIds s"
    and l: "eventLists s ev = Some (A @ h # B @ d # C)"
    and dist: "distinct (map itemId (A @ h # B @ d # C))"
  from dist h d have "hoverId \<notin> itemId ` set A" "dragId \<notin> itemId ` set A"
    "dragId \<notin> itemId ` set B" by auto
  from move_single_up [OF h d ne this refl]
  show "eventLists (handleMoveItem dragId hoverId col s) ev = Some (A @ d # h # B @ C)"
    using reorderEventList_single
      [where prev = "eventLists s" and ev = ev and hoverId = hoverId, OF nsel l]
    by (simp add: handleMoveItem_execute [OF ev m])
next
  assume m: "modeOf s ev = Execute" and nsel: "dragId \<notin> selectedItemIds s"
    and l: "eventLists s ev = Some (A @ d # B @ h # C)"
    and dist: "distinct (map itemId (A @ d # B @ h # C))"
  from dist h d have "hoverId \<notin> itemId ` set A" "dragId \<notin> itemId ` set A"
    "hoverId \<notin> itemId ` set B" by auto
  from move_single_down [OF h d ne this refl]
  show "eventLists (handleMoveItem dragId hoverId col s) ev = Some (A @ B @ h # d # C)"
    using reorderEventList_single
      [where prev = "eventLists s" and ev = ev and hoverId = hoverId, OF nsel l]
    by (simp add: handleMoveItem_execute [OF ev m])
next
  assume m: "modeOf s ev = Edit" and c: "col = Some ExecuteColumn"
    and nsel: "dragId \<notin> selectedItemIds s"
    and l: "executeModeItems s ev = Some e"
    and ids: "dayItemsOf e (currentDay s) = I @ hoverId # J @ dragId # K"
    and dist: "distinct (I @ hoverId # J @ dragId # K)"
  from dist have "hoverId \<notin> (\<lambda>x. x) ` set I" "dragId \<notin> (\<lambda>x. x) ` set I"
    "dragId \<notin> (\<lambda>x. x) ` set J" by auto
  from move_single_up [of "\<lambda>x. x", OF refl refl ne this ids]
  show "executeModeItems (handleMoveItem dragId hoverId col s) ev =
        Some (withDayItems e (currentDay s) (I @ dragId # hoverId # J @ K))"
    using reorderExecuteColumn_single
      [where prev = "executeModeItems s" and ev = ev and hoverId = hoverId
         and day = "currentDay s", OF nsel l]
    by (simp add: handleMoveItem_edit [OF ev m c])
next
  assume m: "modeOf s ev = Edit" and c: "col = Some ExecuteColumn"
    and nsel: "dragId \<notin> selectedItemIds s"
    and l: "executeModeItems s ev = Some e"
    and ids: "dayItemsOf e (currentDay s) = I @ dragId # J @ hoverId # K"
    and dist: "distinct (I @ dragId # J @ hoverId # K)"
  from dist have "hoverId \<notin> (\<lambda>x. x) ` set I" "dragId \<notin> (\<lambda>x. x) ` set I"
    "hoverId \<notin> (\<lambda>x. x) ` set J" by auto
  from move_single_down [of "\<lambda>x. x", OF refl refl ne this ids]
  show "executeModeItems (handleMoveItem dragId hoverId col s) ev =
        Some (withDayItems e (currentDay s) (I @ J @ hoverId # dragId # K))"
    using reorderExecuteColumn_single
      [where prev = "executeModeItems s" and ev = ev and hoverId = hoverId
         and day = "currentDay s", OF nsel l]
    by (simp add: handleMoveItem_edit [OF ev m c])
next
  assume m: "modeOf s ev = Execute" and sel: "selectedItemIds s = {dragId}"
    and l: "eventLists s ev = Some (A @ h # B @ d # C)"
    and dist: "distinct (map itemId (A @ h # B @ d # C))"
  have xs: "A @ h # B @ d # C = (A @ h # B) @ d # C" by simp
  from dist have dist': "distinct (map itemId ((A @ h # B) @ d # C))" by simp
  have f: "filter (\<lambda>x. itemId x \<notin> selectedItemIds s) (A @ h # B @ d # C) = A @ h # (B @ C)"
    "filter (\<lambda>x. itemId x \<in> selectedItemIds s) (A @ h # B @ d # C) = [d]"
    unfolding xs sel d [symmetric] using filter_lone [OF dist'] by simp_all
  from dist h have hA: "hoverId \<notin> itemId ` set A" by auto
  have dsel: "dragId \<in> selectedItemIds s" by (simp add: sel)
  have din: "dragId \<in> itemId ` set (A @ h # B @ d # C)" using d by force
  show "eventLists (handleMoveItem dragId hoverId col s) ev = Some (A @ d # h # B @ C)"
    by (simp add: handleMoveItem_execute [OF ev m] reorderEventList_block
      [where prev = "eventLists s" and ev = ev, OF dsel l din f(1) h hA, unfolded f(2)])
next
  assume m: "modeOf s ev = Execute" and sel: "selectedItemIds s = {dragId}"
    and l: "eventLists s ev = Some (A @ d # B @ h # C)"
    and dist: "distinct (map itemId (A @ d # B @ h # C))"
  have f: "filter (\<lambda>x. itemId x \<notin> selectedItemIds s) (A @ d # B @ h # C) = (A @ B) @ h # C"
    "filter (\<lambda>x. itemId x \<in> selectedItemIds s) (A @ d # B @ h # C) = [d]"
    unfolding sel d [symmetric] using filter_lone [OF dist] by simp_all
  from dist h have hA: "hoverId \<notin> itemId ` set (A @ B)" by auto
  have dsel: "dragId \<in> selectedItemIds s" by (simp add: sel)
  have din: "dragId \<in> itemId ` set (A @ d # B @ h # C)" using d by force
  show "eventLists (handleMoveItem dragId hoverId col s) ev = Some (A @ B @ d # h # C)"
    by (simp add: handleMoveItem_execute [OF ev m] reorderEventList_block
      [where prev = "eventLists s" and ev = ev, OF dsel l din f(1) h hA, unfolded f(2)])
next
  assume m: "modeOf s ev = Edit" and c: "col = Some ExecuteColumn"
    and sel: "selectedItemIds s = {dragId}"
    and l: "executeModeItems s ev = Some e"
    and ids: "dayItemsOf e (currentDay s) = I @ hoverId # J @ dragId # K"
    and dist: "distinct (I @ hoverId # J @ dragId # K)"
  have xs: "I @ hoverId # J @ dragId # K = (I @ hoverId # J) @ dragId # K" by simp
  from dist have dist': "distinct (map (\<lambda>x. x) ((I @ hoverId # J) @ dragId # K))" by simp
  have f: "filter (\<lambda>x. x \<notin> selectedItemIds s) (dayItemsOf e (currentDay s)) = I @ hoverId # (J @ K)"
    "filter (\<lambda>x. x \<in> selectedItemIds s) (dayItemsOf e (currentDay s)) = [dragId]"
    unfolding ids xs sel using filter_lone [of "\<lambda>x. x", OF dist'] by simp_all
  from dist have hA: "hoverId \<notin> set I" by auto
  have dsel: "dragId \<in> selectedItemIds s" by (simp add: sel)
  show "executeModeItems (handleMoveItem dragId hoverId col s) ev =
        Some (withDayItems e (currentDay s) (I @ dragId # hoverId # J @ K))"
    by (simp add: handleMoveItem_edit [OF ev m c] reorderExecuteColumn_block
      [where prev = "executeModeItems s" and ev = ev, OF dsel l f(1) hA, unfolded f(2)])
next
  assume m: "modeOf s ev = Edit" and c: "col = Some ExecuteColumn"
    and sel: "selectedItemIds s = {dragId}"
    and l: "executeModeItems s ev = Some e"
    and ids: "dayItemsOf e (currentDay s) = I @ dragId # J @ hoverId # K"
    and dist: "distinct (I @ dragId # J @ hoverId # K)"
  from dist have dist': "distinct (map (\<lambda>x. x) (I @ dragId # J @ hoverId # K))" by simp
  have f: "filter (\<lambda>x. x \<notin> selectedItemIds s) (dayItemsOf e (currentDay s)) = (I @ J) @ hoverId # K"
    "filter (\<lambda>x. x \<in> selectedItemIds s) (dayItemsOf e (currentDay s)) = [dragId]"
    unfolding ids sel using filter_lone [of "\<lambda>x. x", OF dist'] by simp_all
  from dist have hA: "hoverId \<notin> set (I @ J)" by auto
  have dsel: "dragId \<in> selectedItemIds s" by (simp add: sel)
  show "executeModeItems (handleMoveItem dragId hoverId col s) ev =
        Some (withDayItems e (currentDay s) (I @ J @ dragId # hoverId # K))"
    by (simp add: handleMoveItem_edit [OF ev m c] reorderExecuteColumn_block
      [where prev = "executeModeItems s" and ev = ev, OF dsel l f(1) hA, unfolded f(2)])
qed

theorem handleMoveItem_single_witness:
  "eventLists (handleMoveItem (ascii ''c'') (ascii ''a'') None (sampleState Execute {})) (ascii ''E'') =
     Some [sampleItem ''c'', sampleItem ''a'', sampleItem ''b''] \<and>
   eventLists (handleMoveItem (ascii ''a'') (ascii ''c'') None (sampleState Execute {})) (ascii ''E'') =
     Some [sampleItem ''b'', sampleItem ''c'', sampleItem ''a''] \<and>
   executeModeItems (handleMoveItem (ascii ''c'') (ascii ''a'') (Some ExecuteColumn)
       (sampleState Edit {ascii ''c''})) (ascii ''E'') =
     Some \<lparr>day1 = [ascii ''c'', ascii ''a'', ascii ''b''], day2 = []\<rparr>"
proof -
  have up: "eventLists (handleMoveItem (ascii ''c'') (ascii ''a'') None (sampleState Execute {}))
      (ascii ''E'') = Some ([] @ sampleItem ''c'' # sampleItem ''a'' # [sampleItem ''b''] @ [])"
    using handleMoveItem_single_lands_at_target_index
      [where s = "sampleState Execute {}" and ev = "ascii ''E''" and dragId = "ascii ''c''"
         and hoverId = "ascii ''a''" and h = "sampleItem ''a''" and d = "sampleItem ''c''"
         and A = "[]" and B = "[sampleItem ''b'']" and C = "[]" and col = None]
    by (simp add: sample_defs modeOf_def currentDay_def)
  have down: "eventLists (handleMoveItem (ascii ''a'') (ascii ''c'') None (sampleState Execute {}))
      (ascii ''E'') = Some ([] @ [sampleItem ''b''] @ sampleItem ''c'' # sampleItem ''a'' # [])"
    using handleMoveItem_single_lands_at_target_index
      [where s = "sampleState Execute {}" and ev = "ascii ''E''" and dragId = "ascii ''a''"
         and hoverId = "ascii ''c''" and h = "sampleItem ''c''" and d = "sampleItem ''a''"
         and A = "[]" and B = "[sampleItem ''b'']" and C = "[]" and col = None]
    by (simp add: sample_defs modeOf_def currentDay_def)
  have lone: "executeModeItems (handleMoveItem (ascii ''c'') (ascii ''a'') (Some ExecuteColumn)
       (sampleState Edit {ascii ''c''})) (ascii ''E'') =
     Some (withDayItems \<lparr>day1 = [ascii ''a'', ascii ''b'', ascii ''c''], day2 = []\<rparr>
       (currentDay (sampleState Edit {ascii ''c''}))
       ([] @ ascii ''c'' # ascii ''a'' # [ascii ''b''] @ []))"
    using handleMoveItem_single_lands_at_target_index
      [where s = "sampleState Edit {ascii ''c''}" and ev = "ascii ''E''" and dragId = "ascii ''c''"
         and hoverId = "ascii ''a''" and h = "sampleItem ''a''" and d = "sampleItem ''c''"
         and I = "[]" and J = "[ascii ''b'']" and K = "[]" and col = "Some ExecuteColumn"
         and e = "\<lparr>day1 = [ascii ''a'', ascii ''b'', ascii ''c''], day2 = []\<rparr>"]
    by (simp add: sample_defs modeOf_def currentDay_def dayItemsOf_def)
  from up down lone show ?thesis
    by (simp add: withDayItems_def currentDay_def sampleState_def)
qed



text \<open>
  Where a stale id does stop a move or an edit: in execute mode when either id is no
  id of the collection; in edit mode when the target id is not in the execute column,
  or the dragged id is neither in the column nor selected; and an edit of an item whose
  id the collection does not hold.
\<close>

lemma reorderExecuteColumn_stale:
  assumes "hoverId \<notin> set (dayItemsOf (case prev ev of None \<Rightarrow> emptyExecuteModeItems | Some e \<Rightarrow> e) day) \<or>
           (dragId \<notin> set (dayItemsOf (case prev ev of None \<Rightarrow> emptyExecuteModeItems | Some e \<Rightarrow> e) day) \<and>
            dragId \<notin> sel)"
  shows "reorderExecuteColumn ev day sel dragId hoverId prev = prev"
proof -
  let ?ids = "dayItemsOf (case prev ev of None \<Rightarrow> emptyExecuteModeItems | Some e \<Rightarrow> e) day"
  from assms show ?thesis
  proof
    assume h: "hoverId \<notin> set ?ids"
    then have "findIndex (\<lambda>i. i = hoverId) ?ids = None"
      "findIndex (\<lambda>i. i = hoverId) (filter (\<lambda>i. i \<notin> sel) ?ids) = None"
      by (auto simp: findIndex_None_iff)
    then show ?thesis
      by (auto simp: reorderExecuteColumn_def Let_def split: option.splits)
  next
    assume d: "dragId \<notin> set ?ids \<and> dragId \<notin> sel"
    then have "findIndex (\<lambda>i. i = dragId) ?ids = None" by (auto simp: findIndex_None_iff)
    with d show ?thesis
      by (auto simp: reorderExecuteColumn_def Let_def split: option.splits)
  qed
qed

lemma executeIdsOf_alt:
  "executeIdsOf s ev =
     dayItemsOf (case executeModeItems s ev of None \<Rightarrow> emptyExecuteModeItems | Some e \<Rightarrow> e)
       (currentDay s)"
  by (simp add: executeIdsOf_def dayItemsOf_empty split: option.splits)

lemma items_alt:
  "activeEventName s = Some ev \<Longrightarrow> ev \<noteq> [] \<Longrightarrow>
   items s = (case eventLists s ev of None \<Rightarrow> [] | Some xs \<Rightarrow> xs)"
  by (simp add: items_def truthy_def)

lemma handleMoveItem_stale_noop:
  assumes ev: "activeEventName s = Some ev" "ev \<noteq> []"
  shows
    "(modeOf s ev = Execute \<and>
        (dragId \<notin> itemId ` set (items s) \<or> hoverId \<notin> itemId ` set (items s)) \<longrightarrow>
      eventLists (handleMoveItem dragId hoverId col s) = eventLists s \<and>
      executeModeItems (handleMoveItem dragId hoverId col s) = executeModeItems s) \<and>
     (modeOf s ev = Edit \<and>
        (hoverId \<notin> set (executeIdsOf s ev) \<or>
         (dragId \<notin> set (executeIdsOf s ev) \<and> dragId \<notin> selectedItemIds s)) \<longrightarrow>
      eventLists (handleMoveItem dragId hoverId col s) = eventLists s \<and>
      executeModeItems (handleMoveItem dragId hoverId col s) = executeModeItems s)"
proof (intro conjI impI; elim conjE)
  assume m: "modeOf s ev = Execute"
    and st: "dragId \<notin> itemId ` set (items s) \<or> hoverId \<notin> itemId ` set (items s)"
  have "reorderEventList ev (selectedItemIds s) dragId hoverId (eventLists s) = eventLists s"
    by (rule reorderEventList_stale [where prev = "eventLists s" and ev = ev])
       (use st in \<open>simp only: items_alt [OF ev]\<close>)
  then show "eventLists (handleMoveItem dragId hoverId col s) = eventLists s"
    by (simp add: handleMoveItem_execute [OF ev m])
  show "executeModeItems (handleMoveItem dragId hoverId col s) = executeModeItems s"
    by (rule handleMoveItem_execute [OF ev m])
next
  assume m: "modeOf s ev = Edit"
    and st: "hoverId \<notin> set (executeIdsOf s ev) \<or>
         (dragId \<notin> set (executeIdsOf s ev) \<and> dragId \<notin> selectedItemIds s)"
  show "eventLists (handleMoveItem dragId hoverId col s) = eventLists s"
    using ev m by (simp add: handleMoveItem_def truthy_def Let_def)
  have "reorderExecuteColumn ev (currentDay s) (selectedItemIds s) dragId hoverId
          (executeModeItems s) = executeModeItems s"
    by (rule reorderExecuteColumn_stale [where prev = "executeModeItems s" and ev = ev])
       (use st in \<open>simp only: executeIdsOf_alt\<close>)
  then show "executeModeItems (handleMoveItem dragId hoverId col s) = executeModeItems s"
    using ev m by (simp add: handleMoveItem_def truthy_def Let_def)
qed

lemma handleUpdateItem_absent_id:
  assumes "activeEventName s = Some ev" "ev \<noteq> []" "eventLists s ev = Some xs"
    and "itemId updatedItem \<notin> itemId ` set xs"
  shows "handleUpdateItem updatedItem s = Inr s"
proof -
  have "map (\<lambda>item. if itemId item = itemId updatedItem then updatedItem else item) xs = xs"
    using assms(4) by (induction xs) auto
  moreover have "(eventLists s)(ev \<mapsto> xs) = eventLists s"
    using assms(3) by (rule map_upd_triv)
  ultimately show ?thesis
    using assms(1-3) by (simp add: handleUpdateItem_def truthy_def)
qed

text \<open>
  C9 at the input where the code departs from it: in edit mode the selection holds the
  dragged id \<open>x\<close>, which is no id of the collection or of the execute column, and the
  id \<open>c\<close>. Dragging \<open>x\<close> onto \<open>a\<close> in the execute column moves \<open>c\<close> in front of
  \<open>a\<close>, so the execute column changes.
\<close>

theorem handleMoveItem_stale_drag_moves_block:
  "ascii ''x'' \<notin> set [ascii ''a'', ascii ''b'', ascii ''c''] \<and>
   executeModeItems (sampleState Edit {ascii ''x'', ascii ''c''}) (ascii ''E'') =
     Some \<lparr>day1 = [ascii ''a'', ascii ''b'', ascii ''c''], day2 = []\<rparr> \<and>
   executeModeItems (handleMoveItem (ascii ''x'') (ascii ''a'') (Some ExecuteColumn)
       (sampleState Edit {ascii ''x'', ascii ''c''})) (ascii ''E'') =
     Some \<lparr>day1 = [ascii ''c'', ascii ''a'', ascii ''b''], day2 = []\<rparr>"
  by (simp add: sample_defs move_defs)

section \<open>Adding to the execute column\<close>

lemma filter_firstOccurrences: "filter P (firstOccurrences xs) = firstOccurrences (filter P xs)"
proof (induction xs)
  case Nil
  then show ?case by simp
next
  case (Cons x xs)
  show ?case
  proof (cases "P x")
    case True
    have "filter P (filter (\<lambda>y. y \<noteq> x) (firstOccurrences xs)) =
          filter (\<lambda>y. y \<noteq> x) (filter P (firstOccurrences xs))"
      by (simp add: conj_commute)
    with True Cons.IH show ?thesis by simp
  next
    case False
    have "filter P (filter (\<lambda>y. y \<noteq> x) (firstOccurrences xs)) = filter P (firstOccurrences xs)"
      using False by (auto intro: filter_cong)
    with False Cons.IH show ?thesis by simp
  qed
qed

lemma set_firstOccurrences: "set (firstOccurrences xs) = set xs"
  by (induction xs) auto

lemma distinct_firstOccurrences: "distinct (firstOccurrences xs)"
  by (induction xs) (auto simp: set_firstOccurrences)

lemma firstOccurrences_distinct: "distinct xs \<Longrightarrow> firstOccurrences xs = xs"
  by (induction xs) (auto simp: set_firstOccurrences filter_id_conv)

lemma firstOccurrences_append:
  "firstOccurrences (xs @ ys) = firstOccurrences xs @ firstOccurrences (filter (\<lambda>y. y \<notin> set xs) ys)"
proof (induction xs arbitrary: ys)
  case Nil
  then show ?case by simp
next
  case (Cons x xs)
  have "filter (\<lambda>y. y \<noteq> x) (firstOccurrences (filter (\<lambda>y. y \<notin> set xs) ys)) =
        firstOccurrences (filter (\<lambda>y. y \<notin> set (x # xs)) ys)"
    by (simp add: filter_firstOccurrences conj_commute)
  then show ?case by (simp add: Cons.IH)
qed

lemma fold_setAdd:
  "fold (\<lambda>i acc. setAdd acc i) ids base =
     base @ firstOccurrences (filter (\<lambda>i. i \<notin> set base) ids)"
proof (induction ids arbitrary: base)
  case Nil
  then show ?case by simp
next
  case (Cons x ids)
  show ?case
  proof (cases "x \<in> set base")
    case True
    then have "setAdd base x = base" by (simp add: setAdd_def)
    with True show ?thesis by (simp add: Cons.IH)
  next
    case False
    then have a: "setAdd base x = base @ [x]" by (simp add: setAdd_def)
    have "filter (\<lambda>y. y \<noteq> x) (firstOccurrences (filter (\<lambda>i. i \<notin> set base) ids)) =
          firstOccurrences (filter (\<lambda>i. i \<notin> set (base @ [x])) ids)"
      by (simp add: filter_firstOccurrences conj_commute)
    with False show ?thesis by (simp add: a Cons.IH)
  qed
qed

lemma newSet_firstOccurrences: "newSet xs = firstOccurrences xs"
  by (simp add: newSet_def fold_setAdd)

lemma set_add_all:
  "fold (\<lambda>i acc. setAdd acc i) ids (newSet base) = firstOccurrences (base @ ids)"
  by (simp add: fold_setAdd newSet_firstOccurrences firstOccurrences_append set_firstOccurrences)

lemma executeIdsOf_handleMoveToExecuteColumn:
  assumes "activeEventName s = Some ev" "ev \<noteq> []"
  shows "executeIdsOf (handleMoveToExecuteColumn itemIds s) ev =
           firstOccurrences (executeIdsOf s ev @ itemIds)"
  using assms
  by (simp add: handleMoveToExecuteColumn_def truthy_def Let_def executeIdsOf_def currentDay_def
      dayItemsOf_withDayItems set_add_all dayItemsOf_empty split: option.splits)

lemma handleMoveToExecuteColumn_distinct:
  assumes "activeEventName s = Some ev" "ev \<noteq> []"
  shows "distinct (executeIdsOf (handleMoveToExecuteColumn itemIds s) ev)"
  by (simp only: executeIdsOf_handleMoveToExecuteColumn [OF assms] distinct_firstOccurrences)

text \<open>
  C8. With an active event whose execute column for the current day holds no id twice,
  \<open>handleMoveToExecuteColumn\<close> leaves the ids of the column where they are and
  appends, behind them, the given ids that the column does not hold yet, each once, in
  the order in which they are given (the order of their first occurrence).
\<close>

theorem handleMoveToExecuteColumn_appends_new_ids:
  assumes "activeEventName s = Some ev" "ev \<noteq> []"
    and "distinct (executeIdsOf s ev)"
  shows "executeIdsOf (handleMoveToExecuteColumn itemIds s) ev =
           executeIdsOf s ev @
           firstOccurrences (filter (\<lambda>i. i \<notin> set (executeIdsOf s ev)) itemIds)"
  using assms
  by (simp add: executeIdsOf_handleMoveToExecuteColumn firstOccurrences_append
      firstOccurrences_distinct)

theorem handleMoveToExecuteColumn_witness:
  "executeIdsOf (handleMoveToExecuteColumn
       [ascii ''c'', ascii ''d'', ascii ''a'', ascii ''d'', ascii ''e''] (sampleState Edit {}))
     (ascii ''E'') =
   [ascii ''a'', ascii ''b'', ascii ''c'', ascii ''d'', ascii ''e'']"
  using handleMoveToExecuteColumn_appends_new_ids
    [where s = "sampleState Edit {}" and ev = "ascii ''E''"
       and itemIds = "[ascii ''c'', ascii ''d'', ascii ''a'', ascii ''d'', ascii ''e'']"]
  by (simp add: sample_defs executeIdsOf_def currentDay_def dayItemsOf_def)

section \<open>Maps built from arrays, and the two column projections\<close>

lemma newMap_Nil: "newMap [] = Map.empty"
  by (simp add: newMap_def)

lemma newMap_snoc: "newMap (es @ [(k, v)]) = (newMap es)(k \<mapsto> v)"
  by (simp add: newMap_def)

lemma newMap_keyed_snoc:
  "newMap (map (\<lambda>x. (f x, x)) (xs @ [y])) k =
     (if k = f y then Some y else newMap (map (\<lambda>x. (f x, x)) xs) k)"
  by (simp add: newMap_snoc)

lemma newMap_None: "newMap (map (\<lambda>x. (f x, x)) xs) k = None \<longleftrightarrow> k \<notin> f ` set xs"
proof (induction xs rule: rev_induct)
  case Nil
  then show ?case by (simp add: newMap_Nil)
next
  case (snoc y xs)
  then show ?case by (simp only: newMap_keyed_snoc) auto
qed

lemma newMap_behind:
  "f x = k \<Longrightarrow> k \<notin> f ` set post \<Longrightarrow> newMap (map (\<lambda>x. (f x, x)) (pre @ x # post)) k = Some x"
proof (induction post rule: rev_induct)
  case Nil
  then show ?case using newMap_keyed_snoc [of f pre x k] by simp
next
  case (snoc y post)
  have "pre @ x # post @ [y] = (pre @ x # post) @ [y]" by simp
  with snoc show ?case by (simp only: newMap_keyed_snoc) auto
qed

lemma newMap_Some_split:
  "newMap (map (\<lambda>x. (f x, x)) xs) k = Some x \<Longrightarrow>
     \<exists>pre post. xs = pre @ x # post \<and> f x = k \<and> k \<notin> f ` set post"
proof (induction xs rule: rev_induct)
  case Nil
  then show ?case by (simp add: newMap_Nil)
next
  case (snoc y xs)
  show ?case
  proof (cases "k = f y")
    case True
    with snoc.prems have "x = y" by (simp only: newMap_keyed_snoc) simp
    with True show ?thesis by (intro exI [of _ xs] exI [of _ "[]"]) simp
  next
    case False
    with snoc.prems have "newMap (map (\<lambda>x. (f x, x)) xs) k = Some x"
      by (simp only: newMap_keyed_snoc) simp
    from snoc.IH [OF this] obtain pre post where
      "xs = pre @ x # post" "f x = k" "k \<notin> f ` set post" by blast
    with False show ?thesis
      by (intro exI [of _ pre] exI [of _ "post @ [y]"]) simp
  qed
qed

lemma newMap_Some_key: "newMap (map (\<lambda>x. (f x, x)) xs) k = Some x \<Longrightarrow> x \<in> set xs \<and> f x = k"
  by (auto dest: newMap_Some_split)

lemma newMap_distinct:
  assumes "distinct (map f xs)"
  shows "newMap (map (\<lambda>x. (f x, x)) xs) k = Some x \<longleftrightarrow> x \<in> set xs \<and> f x = k"
proof
  assume "newMap (map (\<lambda>x. (f x, x)) xs) k = Some x"
  then show "x \<in> set xs \<and> f x = k" by (rule newMap_Some_key)
next
  assume a: "x \<in> set xs \<and> f x = k"
  then obtain pre post where p: "xs = pre @ x # post" by (auto simp: in_set_conv_decomp)
  with assms a have "k \<notin> f ` set post" by auto
  with p a show "newMap (map (\<lambda>x. (f x, x)) xs) k = Some x"
    using newMap_behind [of f x k post pre] by blast
qed

lemma set_map_filter: "set (List.map_filter m ks) = {x. \<exists>k \<in> set ks. m k = Some x}"
  by (force simp: List.map_filter_def image_iff)

lemma executeColumnItems_set:
  assumes "activeEventName s = Some ev" "ev \<noteq> []" "distinct (map itemId (items s))"
  shows "set (executeColumnItems s) =
           set (filter (\<lambda>item. itemId item \<in> set (executeIdsOf s ev)) (items s))"
  using assms
  by (auto simp: executeColumnItems_def truthy_def Let_def set_map_filter newMap_distinct)

lemma executeColumnItems_order:
  assumes "activeEventName s = Some ev" "ev \<noteq> []"
  shows "map itemId (executeColumnItems s) =
           filter (\<lambda>i. i \<in> itemId ` set (items s)) (executeIdsOf s ev)"
proof -
  let ?m = "newMap (map (\<lambda>item. (itemId item, item)) (items s))"
  have "map itemId (List.map_filter ?m ks) = filter (\<lambda>i. i \<in> itemId ` set (items s)) ks" for ks
  proof (induction ks)
    case Nil
    then show ?case by (simp add: List.map_filter_simps)
  next
    case (Cons k ks)
    show ?case
    proof (cases "?m k")
      case None
      then have "k \<notin> itemId ` set (items s)" by (simp add: newMap_None)
      with None Cons show ?thesis by (simp add: List.map_filter_simps)
    next
      case (Some x)
      then have "x \<in> set (items s) \<and> itemId x = k" by (rule newMap_Some_key)
      then have "k \<in> itemId ` set (items s)" "itemId x = k" by auto
      with Some Cons show ?thesis by (simp add: List.map_filter_simps)
    qed
  qed
  with assms show ?thesis by (simp add: executeColumnItems_def truthy_def Let_def)
qed

lemma candidateColumnItems_filter:
  assumes "activeEventName s = Some ev" "ev \<noteq> []"
  shows "candidateColumnItems s =
           filter (\<lambda>item. includes_str (eventDate item)
                      (if activeTab s = TabDay1 then day1Label else day2Label) \<and>
                    itemId item \<notin> set (executeIdsOf s ev)) (items s)"
  using assms
  by (simp add: candidateColumnItems_def truthy_def Let_def day1Items_def day2Items_def
      conj_commute)

text \<open>
  C10. With an active event whose items have unique ids: the candidate projection is
  the collection filtered to the items whose \<open>eventDate\<close> contains the label of the
  current day and whose id is not in that day's execute column; the execute projection
  holds exactly the items of the whole collection whose id is in that day's execute
  column, with their ids in the order of the column, and no test of \<open>eventDate\<close>. In
  the sample the item \<open>z\<close> of day 2 is shown in the execute column of day 1.
\<close>

theorem column_projections:
  assumes "activeEventName s = Some ev" "ev \<noteq> []" "distinct (map itemId (items s))"
  shows "candidateColumnItems s =
           filter (\<lambda>item. includes_str (eventDate item)
                      (if activeTab s = TabDay1 then day1Label else day2Label) \<and>
                    itemId item \<notin> set (executeIdsOf s ev)) (items s) \<and>
         set (executeColumnItems s) =
           set (filter (\<lambda>item. itemId item \<in> set (executeIdsOf s ev)) (items s)) \<and>
         map itemId (executeColumnItems s) =
           filter (\<lambda>i. i \<in> itemId ` set (items s)) (executeIdsOf s ev)"
  using candidateColumnItems_filter [OF assms(1,2)] executeColumnItems_set [OF assms]
    executeColumnItems_order [OF assms(1,2)]
  by (intro conjI)


theorem column_projections_witness:
  "candidateColumnItems mixedState = [sampleItem ''a''] \<and>
   executeColumnItems mixedState = [sampleItemDay2 ''z''] \<and>
   \<not> includes_str (eventDate (sampleItemDay2 ''z'')) day1Label \<and>
   map itemId (executeColumnItems mixedState) = [ascii ''z'']"
proof -
  have hyps: "activeEventName mixedState = Some (ascii ''E'')" "ascii ''E'' \<noteq> []"
    "distinct (map itemId (items mixedState))"
    by (simp_all add: mixedState_def sampleItemDay2_def sample_defs items_def truthy_def)
  have ids: "executeIdsOf mixedState (ascii ''E'') = [ascii ''z'']"
    by (simp add: mixedState_def sample_defs executeIdsOf_def currentDay_def dayItemsOf_def)
  have its: "items mixedState = [sampleItem ''a'', sampleItemDay2 ''z'']"
    by (simp add: mixedState_def sample_defs items_def truthy_def)
  have tab: "activeTab mixedState = TabDay1"
    by (simp add: mixedState_def sample_defs)
  from column_projections [OF hyps]
  have "candidateColumnItems mixedState = [sampleItem ''a'']"
    and "map itemId (executeColumnItems mixedState) = [ascii ''z'']"
    unfolding ids its tab
    by (simp_all add: sampleItemDay2_def sample_defs day2Label_def)
  moreover have "executeColumnItems mixedState = [sampleItemDay2 ''z'']"
    by (simp add: executeColumnItems_def truthy_def Let_def executeIdsOf_def currentDay_def
        dayItemsOf_def items_def mixedState_def newMap_def List.map_filter_simps
        sampleItemDay2_def sample_defs)
  moreover have "\<not> includes_str (eventDate (sampleItemDay2 ''z'')) day1Label"
    by (simp add: sampleItemDay2_def sample_defs day2Label_def)
  ultimately show ?thesis by simp
qed

section \<open>Parsing the fetched rows\<close>

lemma cellTrim_blank: "cellTrim cells i = [] \<longleftrightarrow> fieldBlank cells i"
  by (auto simp: cellTrim_def fieldBlank_def)

lemma parseLine_rowCandidate:
  "parseLine line acc =
     acc @ (case rowCandidate (splitCells line [] [] False) of None \<Rightarrow> [] | Some c \<Rightarrow> [c])"
  by (auto simp: parseLine_def rowCandidate_def Let_def cellTrim_blank)
     (auto simp: cellTrim_def fieldBlank_def)

lemma fold_parseLine:
  "fold parseLine ls acc =
     acc @ List.map_filter rowCandidate (map (\<lambda>line. splitCells line [] [] False) ls)"
proof (induction ls arbitrary: acc)
  case Nil
  then show ?case by (simp add: List.map_filter_simps)
next
  case (Cons l ls)
  have "fold parseLine (l # ls) acc = fold parseLine ls (parseLine l acc)" by simp
  also have "\<dots> = parseLine l acc @
      List.map_filter rowCandidate (map (\<lambda>line. splitCells line [] [] False) ls)"
    by (rule Cons.IH)
  also have "\<dots> = acc @
      List.map_filter rowCandidate (map (\<lambda>line. splitCells line [] [] False) (l # ls))"
    by (simp add: parseLine_rowCandidate [of l acc] List.map_filter_simps split: option.splits)
  finally show ?case .
qed

text \<open>
  The parsing loop of \<open>handleUpdateEvent\<close>, line by line: it splits every non-blank
  line after the first into cells and keeps, in order, the candidates of the lines that
  have one. A line whose cell 12, 13, 14 or 15 is missing or blank after trimming
  contributes nothing, and every other line contributes exactly the candidate built
  from its cells 12, 13, 14, 15, 16, 17 and 22.
\<close>

lemma handleUpdateEvent_parse_lines:
  "handleUpdateEvent_parse text =
     List.map_filter rowCandidate
       (map (\<lambda>line. splitCells line [] [] False) (drop 1 (sheetLines text)))"
  by (simp add: handleUpdateEvent_parse_def fold_parseLine)

lemma sheetLines_sample:
  "sheetLines sampleText =
     [ascii ''h'',
      ascii '',,,,,,,,,,,,C,d1,A,01, Title ,'' @ [0x22] @ ascii ''1,200'' @ [0x22] @ ascii '',,,,,memo'',
      ascii '',,,,,,,,,,,,C2,d1,A, ,T2,5'']"
  by (simp add: sheetLines_def sampleText_def ascii_def trim_def isWhiteSpace_def)


lemma splitCells_sample1:
  "splitCells (ascii '',,,,,,,,,,,,C,d1,A,01, Title ,'' @ [0x22] @ ascii ''1,200'' @ [0x22] @
      ascii '',,,,,memo'') [] [] False =
   [[], [], [], [], [], [], [], [], [], [], [], [], ascii ''C'', ascii ''d1'', ascii ''A'',
    ascii ''01'', ascii '' Title '', ascii ''1,200'', [], [], [], [], ascii ''memo'']"
  by (simp add: ascii_def)

lemma splitCells_sample2:
  "splitCells (ascii '',,,,,,,,,,,,C2,d1,A, ,T2,5'') [] [] False =
   [[], [], [], [], [], [], [], [], [], [], [], [], ascii ''C2'', ascii ''d1'', ascii ''A'',
    ascii '' '', ascii ''T2'', ascii ''5'']"
  by (simp add: ascii_def)

lemma handleUpdateEvent_parse_sample:
  "handleUpdateEvent_parse sampleText =
     [\<lparr>circle = ascii ''C'', eventDate = ascii ''d1'', block = ascii ''A'', number = ascii ''01'',
       title = ascii ''Title'', price = 1200, remarks = ascii ''memo''\<rparr>]"
proof -
  have r1: "rowCandidate
      [[], [], [], [], [], [], [], [], [], [], [], [], ascii ''C'', ascii ''d1'', ascii ''A'',
       ascii ''01'', ascii '' Title '', ascii ''1,200'', [], [], [], [], ascii ''memo''] =
     Some \<lparr>circle = ascii ''C'', eventDate = ascii ''d1'', block = ascii ''A'',
       number = ascii ''01'', title = ascii ''Title'', price = 1200, remarks = ascii ''memo''\<rparr>"
    by (simp add: rowCandidate_def fieldBlank_def cellTrim_def cellPrice_def parseInt10_def
        isDigit_def trim_def isWhiteSpace_def ascii_def)
  have r2: "rowCandidate
      [[], [], [], [], [], [], [], [], [], [], [], [], ascii ''C2'', ascii ''d1'', ascii ''A'',
       ascii '' '', ascii ''T2'', ascii ''5''] = None"
    by (simp add: rowCandidate_def fieldBlank_def trim_def isWhiteSpace_def ascii_def)
  show ?thesis
    by (simp only: handleUpdateEvent_parse_lines sheetLines_sample drop_Suc_Cons drop_0
        One_nat_def list.map splitCells_sample1 splitCells_sample2 List.map_filter_simps r1 r2
        option.case)
qed

text \<open>
  C7 at the input where the code departs from it. The response is split at every line
  break before the quotes of a line are read, and the quote flag starts anew on each
  line, so a row of the sheet with a line break inside a quoted cell is read as two
  lines. The row of \<open>multilineText\<close> has the title \<open>Ti\<close>, line break, \<open>tle\<close> at
  index 16, the price 500 at index 17 and the remarks \<open>memo\<close> at index 22 (so the
  loop's own cell scan reads it, given the row in one piece); the parsing loop builds
  the candidate with the title \<open>Ti\<close>, the price 0 and no remarks. The row of
  \<open>noteText\<close> has the cells 12 to 15 filled in and a line break in its first cell;
  the parsing loop builds no candidate for it.
\<close>

theorem handleUpdateEvent_parse_multiline_row:
  "rowCandidate (splitCells multilineRow [] [] False) =
     Some \<lparr>circle = ascii ''C'', eventDate = ascii ''d1'', block = ascii ''A'',
       number = ascii ''01'', title = ascii ''Ti'' @ [0x0A] @ ascii ''tle'', price = 500,
       remarks = ascii ''memo''\<rparr> \<and>
   handleUpdateEvent_parse multilineText =
     [\<lparr>circle = ascii ''C'', eventDate = ascii ''d1'', block = ascii ''A'',
       number = ascii ''01'', title = ascii ''Ti'', price = 0, remarks = []\<rparr>] \<and>
   rowCandidate (splitCells noteRow [] [] False) =
     Some \<lparr>circle = ascii ''C'', eventDate = ascii ''d1'', block = ascii ''A'',
       number = ascii ''01'', title = ascii ''T'', price = 500, remarks = []\<rparr> \<and>
   handleUpdateEvent_parse noteText = []"
proof (intro conjI)
  show "rowCandidate (splitCells multilineRow [] [] False) =
     Some \<lparr>circle = ascii ''C'', eventDate = ascii ''d1'', block = ascii ''A'',
       number = ascii ''01'', title = ascii ''Ti'' @ [0x0A] @ ascii ''tle'', price = 500,
       remarks = ascii ''memo''\<rparr>"
    by (simp add: multilineRow_def rowCandidate_def fieldBlank_def cellTrim_def cellPrice_def
        parseInt10_def isDigit_def trim_def isWhiteSpace_def ascii_def)
  show "handleUpdateEvent_parse multilineText =
     [\<lparr>circle = ascii ''C'', eventDate = ascii ''d1'', block = ascii ''A'',
       number = ascii ''01'', title = ascii ''Ti'', price = 0, remarks = []\<rparr>]"
    by (simp add: multilineText_def multilineRow_def handleUpdateEvent_parse_def sheetLines_def
        parseLine_def cellTrim_def cellPrice_def parseInt10_def isDigit_def trim_def
        isWhiteSpace_def ascii_def Let_def)
  show "rowCandidate (splitCells noteRow [] [] False) =
     Some \<lparr>circle = ascii ''C'', eventDate = ascii ''d1'', block = ascii ''A'',
       number = ascii ''01'', title = ascii ''T'', price = 500, remarks = []\<rparr>"
    by (simp add: noteRow_def rowCandidate_def fieldBlank_def cellTrim_def cellPrice_def
        parseInt10_def isDigit_def trim_def isWhiteSpace_def ascii_def)
  show "handleUpdateEvent_parse noteText = []"
    by (simp add: noteText_def noteRow_def handleUpdateEvent_parse_def sheetLines_def
        parseLine_def cellTrim_def cellPrice_def parseInt10_def isDigit_def trim_def
        isWhiteSpace_def ascii_def Let_def)
qed

section \<open>The change-set of a reconciliation\<close>

lemma fold_toDelete:
  "fold (\<lambda>item acc. if P item then acc @ [item] else acc) xs acc0 = acc0 @ filter P xs"
  by (induction xs arbitrary: acc0) auto

lemma diffSheetItem_eq:
  "diffSheetItem (newMap (map (\<lambda>item. (getItemKey item, item)) cur))
     (newMap (map (\<lambda>item. (getItemKeyWithoutTitle item, item)) cur)) r acc =
   (fst acc @ updatesFor cur r, snd acc @ (if isAddition cur r then [r] else []))"
  by (cases acc) (simp add: diffSheetItem_def updatesFor_def isAddition_def split: option.splits)

lemma fold_diffSheetItem:
  "fold (diffSheetItem (newMap (map (\<lambda>item. (getItemKey item, item)) cur))
     (newMap (map (\<lambda>item. (getItemKeyWithoutTitle item, item)) cur))) sheet acc =
   (fst acc @ concat (map (updatesFor cur) sheet), snd acc @ filter (isAddition cur) sheet)"
proof (induction sheet arbitrary: acc)
  case Nil
  then show ?case by simp
next
  case (Cons r sheet)
  let ?D = "diffSheetItem (newMap (map (\<lambda>item. (getItemKey item, item)) cur))
     (newMap (map (\<lambda>item. (getItemKeyWithoutTitle item, item)) cur))"
  have "fold ?D (r # sheet) acc = fold ?D sheet (?D r acc)" by simp
  also have "\<dots> = (fst (?D r acc) @ concat (map (updatesFor cur) sheet),
      snd (?D r acc) @ filter (isAddition cur) sheet)"
    by (rule Cons.IH)
  also have "\<dots> = (fst acc @ concat (map (updatesFor cur) (r # sheet)),
      snd acc @ filter (isAddition cur) (r # sheet))"
    by (simp add: diffSheetItem_eq [of cur r acc])
  finally show ?case .
qed

lemma key_loose: "getItemKey a = getItemKey b \<Longrightarrow> getItemKeyWithoutTitle a = getItemKeyWithoutTitle b"
  by (simp add: getItemKey_def getItemKeyWithoutTitle_def)

lemma isAddition_iff:
  "isAddition cur r \<longleftrightarrow> getItemKeyWithoutTitle r \<notin> getItemKeyWithoutTitle ` set cur"
proof -
  have "getItemKey r \<in> getItemKey ` set cur \<Longrightarrow>
        getItemKeyWithoutTitle r \<in> getItemKeyWithoutTitle ` set cur"
    by (auto simp: image_iff dest: key_loose)
  then show ?thesis by (auto simp: isAddition_def newMap_None)
qed

lemma diff_toDelete:
  "itemsToDelete (handleUpdateEvent_diff cur sheet) =
     filter (\<lambda>i. getItemKeyWithoutTitle i \<notin> getItemKeyWithoutTitle ` set sheet) cur"
  by (simp add: handleUpdateEvent_diff_def Let_def fold_toDelete newMap_None)

lemma diff_toUpdate:
  "itemsToUpdate (handleUpdateEvent_diff cur sheet) = concat (map (updatesFor cur) sheet)"
  by (simp add: handleUpdateEvent_diff_def Let_def fold_diffSheetItem)

lemma diff_toAdd:
  "itemsToAdd (handleUpdateEvent_diff cur sheet) =
     filter (\<lambda>r. getItemKeyWithoutTitle r \<notin> getItemKeyWithoutTitle ` set cur) sheet"
  by (simp add: handleUpdateEvent_diff_def Let_def fold_diffSheetItem isAddition_iff [abs_def])


lemma filter_single_split:
  "filter P xs = [x] \<Longrightarrow>
     \<exists>pre post. xs = pre @ x # post \<and> P x \<and> (\<forall>y \<in> set pre. \<not> P y) \<and> (\<forall>y \<in> set post. \<not> P y)"
proof -
  assume "filter P xs = [x]"
  then obtain us vs where
    "xs = us @ x # vs" "\<forall>u \<in> set us. \<not> P u" "P x" "filter P vs = []"
    by (auto simp: filter_eq_Cons_iff)
  moreover from this(4) have "\<forall>y \<in> set vs. \<not> P y" by (simp add: filter_empty_conv)
  ultimately show ?thesis by blast
qed

lemma updatesFor_origin:
  assumes "u \<in> set (updatesFor cur r)"
  shows "\<exists>e \<in> set cur. itemId u = itemId e \<and> purchaseStatus u = purchaseStatus e \<and>
           getItemKeyWithoutTitle e = getItemKeyWithoutTitle r \<and>
           getItemKey u = getItemKey r \<and> price u = price r \<and> remarks u = remarks r"
proof (cases "newMap (map (\<lambda>item. (getItemKey item, item)) cur) (getItemKey r)")
  case None
  show ?thesis
  proof (cases "newMap (map (\<lambda>item. (getItemKeyWithoutTitle item, item)) cur)
          (getItemKeyWithoutTitle r)")
    case nl: None
    with None assms show ?thesis by (simp add: updatesFor_def)
  next
    case (Some e)
    with None assms have
      u: "u = e\<lparr>title := title r, price := price r, remarks := remarks r\<rparr>"
      by (simp add: updatesFor_def)
    from newMap_Some_key [OF Some] have "e \<in> set cur"
      "getItemKeyWithoutTitle e = getItemKeyWithoutTitle r" by auto
    with u show ?thesis
      by (intro bexI [of _ e]) (auto simp: getItemKey_def getItemKeyWithoutTitle_def)
  qed
next
  case (Some e)
  with assms have u: "u = e\<lparr>price := price r, remarks := remarks r\<rparr>"
    by (auto simp: updatesFor_def split: if_splits)
  from newMap_Some_key [OF Some] have "e \<in> set cur" "getItemKey e = getItemKey r" by auto
  with u show ?thesis
    by (intro bexI [of _ e]) (auto simp: getItemKey_def getItemKeyWithoutTitle_def)
qed

text \<open>
  C5, as the claim states it, fails: the lookup by the loose key is a \<open>Map\<close>, in
  which the last current item with a tuple replaces the earlier ones. With the item of
  the scenario followed by a second item of the same tuple, the fetched row with the new
  title updates the second item, and \<open>itemsToUpdate\<close> holds no entry for the first.
\<close>

theorem title_edit_counterexample:
  "circle newRow = circle oldItem \<and> eventDate newRow = eventDate oldItem \<and>
   block newRow = block oldItem \<and> number newRow = number oldItem \<and>
   title newRow \<noteq> title oldItem \<and>
   itemsToUpdate (handleUpdateEvent_diff [oldItem, siblingItem] [newRow]) =
     [siblingItem\<lparr>title := title newRow, price := price newRow, remarks := remarks newRow\<rparr>] \<and>
   filter (\<lambda>u. itemId u = itemId oldItem)
     (itemsToUpdate (handleUpdateEvent_diff [oldItem, siblingItem] [newRow])) = []"
  by (simp add: handleUpdateEvent_diff_def diffSheetItem_def newMap_def getItemKey_def
      getItemKeyWithoutTitle_def oldItem_def siblingItem_def newRow_def ascii_def)

text \<open>
  C5, amended. Let the ids of the current items be unique, let \<open>item\<close> be the only
  current item with its tuple (circle, eventDate, block, number) and \<open>row\<close> the only
  fetched row with that tuple, and let the titles differ. Then \<open>itemsToUpdate\<close> holds
  exactly one entry with the id of \<open>item\<close>: the item itself (so its id and purchase
  status) with title, price and remarks of the row. \<open>itemsToDelete\<close> holds no entry
  with that id and \<open>itemsToAdd\<close> holds no row with that tuple. The spec's scenario,
  one current item and one fetched row, is the sample.
\<close>

theorem title_edit_is_one_update:
  assumes ids: "distinct (map itemId cur)"
    and item: "filter (\<lambda>i. getItemKeyWithoutTitle i = getItemKeyWithoutTitle item) cur = [item]"
    and row: "filter (\<lambda>r. getItemKeyWithoutTitle r = getItemKeyWithoutTitle row) sheet = [row]"
    and tuple: "circle row = circle item" "eventDate row = eventDate item"
      "block row = block item" "number row = number item"
    and title: "title row \<noteq> title item"
  shows "filter (\<lambda>u. itemId u = itemId item) (itemsToUpdate (handleUpdateEvent_diff cur sheet)) =
           [item\<lparr>title := title row, price := price row, remarks := remarks row\<rparr>] \<and>
         filter (\<lambda>i. itemId i = itemId item) (itemsToDelete (handleUpdateEvent_diff cur sheet)) = [] \<and>
         filter (\<lambda>r. getItemKeyWithoutTitle r = getItemKeyWithoutTitle item)
           (itemsToAdd (handleUpdateEvent_diff cur sheet)) = []"
proof -
  have lk: "getItemKeyWithoutTitle row = getItemKeyWithoutTitle item"
    using tuple by (simp add: getItemKeyWithoutTitle_def)
  from filter_single_split [OF item] obtain pre post where
    cur: "cur = pre @ item # post"
    and others: "\<forall>y \<in> set pre. getItemKeyWithoutTitle y \<noteq> getItemKeyWithoutTitle item"
      "\<forall>y \<in> set post. getItemKeyWithoutTitle y \<noteq> getItemKeyWithoutTitle item"
    by blast
  from filter_single_split [OF row] obtain rpre rpost where
    sheet: "sheet = rpre @ row # rpost"
    and rothers: "\<forall>y \<in> set rpre. getItemKeyWithoutTitle y \<noteq> getItemKeyWithoutTitle row"
      "\<forall>y \<in> set rpost. getItemKeyWithoutTitle y \<noteq> getItemKeyWithoutTitle row"
    by blast
  have item_in: "item \<in> set cur" by (simp add: cur)
  have row_in: "row \<in> set sheet" by (simp add: sheet)
  have only: "i = item" if "i \<in> set cur" "getItemKeyWithoutTitle i = getItemKeyWithoutTitle item" for i
    using that others by (auto simp: cur)
  have by_id: "i = item" if "i \<in> set cur" "itemId i = itemId item" for i
    using that ids item_in by (auto simp: distinct_map inj_on_def)
  \<comment> \<open>no addition\<close>
  have add: "filter (\<lambda>r. getItemKeyWithoutTitle r = getItemKeyWithoutTitle item)
           (itemsToAdd (handleUpdateEvent_diff cur sheet)) = []"
    using item_in by (auto simp: diff_toAdd filter_empty_conv image_iff)
  \<comment> \<open>no deletion\<close>
  have del: "filter (\<lambda>i. itemId i = itemId item)
           (itemsToDelete (handleUpdateEvent_diff cur sheet)) = []"
  proof -
    have "getItemKeyWithoutTitle item \<in> getItemKeyWithoutTitle ` set sheet"
      using row_in lk by (metis image_eqI)
    then show ?thesis
      using by_id by (auto simp: diff_toDelete filter_empty_conv)
  qed
  \<comment> \<open>the row is matched by its loose key only\<close>
  have no_full: "newMap (map (\<lambda>item. (getItemKey item, item)) cur) (getItemKey row) = None"
  proof -
    have "getItemKey i \<noteq> getItemKey row" if "i \<in> set cur" for i
    proof
      assume k: "getItemKey i = getItemKey row"
      then have "getItemKeyWithoutTitle i = getItemKeyWithoutTitle item"
        using key_loose [OF k] lk by simp
      with that have "i = item" by (rule only)
      with k title show False by (simp add: getItemKey_def)
    qed
    then show ?thesis unfolding newMap_None by (metis imageE)
  qed
  have loose: "newMap (map (\<lambda>item. (getItemKeyWithoutTitle item, item)) cur)
                 (getItemKeyWithoutTitle row) = Some item"
    unfolding cur using others(2) lk
    by (intro newMap_behind) (auto simp: image_iff)
  have this_row: "updatesFor cur row =
      [item\<lparr>title := title row, price := price row, remarks := remarks row\<rparr>]"
    by (simp add: updatesFor_def no_full loose)
  have other_rows: "filter (\<lambda>u. itemId u = itemId item) (updatesFor cur r) = []"
    if "getItemKeyWithoutTitle r \<noteq> getItemKeyWithoutTitle row" for r
  proof -
    have "itemId u \<noteq> itemId item" if u: "u \<in> set (updatesFor cur r)" for u
    proof
      assume eq: "itemId u = itemId item"
      from updatesFor_origin [OF u] obtain e where
        e: "e \<in> set cur" "itemId u = itemId e"
          "getItemKeyWithoutTitle e = getItemKeyWithoutTitle r" by blast
      from e(1,2) eq have "e = item" by (intro by_id) simp_all
      with e(3) lk \<open>getItemKeyWithoutTitle r \<noteq> getItemKeyWithoutTitle row\<close>
      show False by simp
    qed
    then show ?thesis by (auto simp: filter_empty_conv)
  qed
  have upd: "filter (\<lambda>u. itemId u = itemId item)
               (itemsToUpdate (handleUpdateEvent_diff cur sheet)) =
             [item\<lparr>title := title row, price := price row, remarks := remarks row\<rparr>]"
  proof -
    have none: "concat (map (filter (\<lambda>u. itemId u = itemId item) \<circ> updatesFor cur) rs) = []"
      if "\<forall>y \<in> set rs. getItemKeyWithoutTitle y \<noteq> getItemKeyWithoutTitle row" for rs
      using that other_rows by (induction rs) auto
    show ?thesis
      by (simp add: diff_toUpdate sheet filter_concat this_row none [OF rothers(1)]
          none [OF rothers(2)])
  qed
  from upd del add show ?thesis by simp
qed


theorem title_edit_witness:
  "handleUpdateEvent_diff [oldItem] [newRow] =
     \<lparr>itemsToDelete = [],
      itemsToUpdate =
        [\<lparr>circle = ascii ''A'', eventDate = ascii ''1'', block = ascii ''E1'',
          number = ascii ''01'', title = ascii ''New'', price = 600, remarks = ascii ''memo'',
          itemId = ascii ''id1'', purchaseStatus = Purchased\<rparr>],
      itemsToAdd = []\<rparr> \<and>
   filter (\<lambda>u. itemId u = itemId oldItem) (itemsToUpdate (handleUpdateEvent_diff [oldItem] [newRow])) =
     [oldItem\<lparr>title := title newRow, price := price newRow, remarks := remarks newRow\<rparr>] \<and>
   filter (\<lambda>i. itemId i = itemId oldItem) (itemsToDelete (handleUpdateEvent_diff [oldItem] [newRow])) = [] \<and>
   filter (\<lambda>r. getItemKeyWithoutTitle r = getItemKeyWithoutTitle oldItem)
     (itemsToAdd (handleUpdateEvent_diff [oldItem] [newRow])) = []"
proof -
  have whole: "handleUpdateEvent_diff [oldItem] [newRow] =
     \<lparr>itemsToDelete = [],
      itemsToUpdate =
        [\<lparr>circle = ascii ''A'', eventDate = ascii ''1'', block = ascii ''E1'',
          number = ascii ''01'', title = ascii ''New'', price = 600, remarks = ascii ''memo'',
          itemId = ascii ''id1'', purchaseStatus = Purchased\<rparr>],
      itemsToAdd = []\<rparr>"
    by (simp add: handleUpdateEvent_diff_def diffSheetItem_def newMap_def getItemKey_def
        getItemKeyWithoutTitle_def oldItem_def newRow_def ascii_def)
  have parts: "filter (\<lambda>u. itemId u = itemId oldItem)
       (itemsToUpdate (handleUpdateEvent_diff [oldItem] [newRow])) =
     [oldItem\<lparr>title := title newRow, price := price newRow, remarks := remarks newRow\<rparr>] \<and>
   filter (\<lambda>i. itemId i = itemId oldItem) (itemsToDelete (handleUpdateEvent_diff [oldItem] [newRow])) = [] \<and>
   filter (\<lambda>r. getItemKeyWithoutTitle r = getItemKeyWithoutTitle oldItem)
     (itemsToAdd (handleUpdateEvent_diff [oldItem] [newRow])) = []"
    by (rule title_edit_is_one_update)
       (simp_all add: oldItem_def newRow_def ascii_def getItemKeyWithoutTitle_def)
  from whole parts show ?thesis by (intro conjI) (simp_all only:)
qed

section \<open>Confirming on concrete states\<close>

lemmas parse_defs = handleUpdateEvent_parse_def sheetLines_def parseLine_def cellTrim_def
  cellPrice_def parseInt10_def isDigit_def trim_def isWhiteSpace_def ascii_def Let_def


lemma parse_addText:
  "handleUpdateEvent_parse addText = [sheetRow ''E1'' ''01'' ''Old'' 600, sheetRow ''E2'' ''07'' ''Other'' 300]"
  by (simp add: addText_def sheetRow_def parse_defs)

lemmas diff_defs = handleUpdateEvent_diff_def diffSheetItem_def newMap_def getItemKey_def
  getItemKeyWithoutTitle_def

lemmas confirm_defs = handleConfirmUpdate_def confirmEventLists_def confirmItems_def
  confirmExecuteModeItems_def insertItemSorted_def newShoppingItem_def truthy_def

text \<open>
  C2 at the input where the code departs from it. The event \<open>E\<close> is reconciled and
  then deleted before the change-set is confirmed. The confirmation does not leave the
  store as it is: the updater of the collections reads \<open>prev[eventName] || []\<close> and
  stores the result, so \<open>E\<close> is back with the added row as its only item, while
  the updater of the execute columns returns \<open>prev\<close> for the missing event.
\<close>

theorem handleConfirmUpdate_recreates_deleted_event:
  "eventLists (handleDeleteEvent (ascii ''E'') (handleUpdateEvent (ascii ''E'') addText oldState))
     (ascii ''E'') = None \<and>
   eventLists
     (handleConfirmUpdate neverGreater sampleUUID
       (handleDeleteEvent (ascii ''E'') (handleUpdateEvent (ascii ''E'') addText oldState)))
     (ascii ''E'') =
   Some [newShoppingItem (sampleUUID 0) (sheetRow ''E2'' ''07'' ''Other'' 300)] \<and>
   executeModeItems
     (handleConfirmUpdate neverGreater sampleUUID
       (handleDeleteEvent (ascii ''E'') (handleUpdateEvent (ascii ''E'') addText oldState)))
     (ascii ''E'') = None"
  by (simp add: handleUpdateEvent_def handleDeleteEvent_def parse_addText oldState_def
        sampleState_def Let_def)
     (simp add: diff_defs confirm_defs sheetRow_def oldItem_def ascii_def)

section \<open>Reconciling again after a confirmation\<close>


































end
